theory Spec2Isabelle
  imports Main
begin

section \<open>Values of the JavaScript runtime that the handlers observe\<close>

text \<open>
  The program is \<^verbatim>\<open>src/api/index.js\<close>: an Express application with three POST handlers
  over one process-wide \<^verbatim>\<open>Map\<close> of sessions. Each handler is modelled as a function from
  the state before the request to the response and the state after it. Everything the
  handler obtains from outside (the clock, the uuid generator, the outcome of every
  awaited puppeteer call) is a field of an environment record, so that every rejection
  the source can see is a branch of the model. A handler runs from its first line to its
  response without another request running in between; interleavings at the
  \<^verbatim>\<open>await\<close> points are outside this model.
\<close>

text \<open>
  A value held by \<^verbatim>\<open>req.body\<close> or by one of its fields after \<^verbatim>\<open>express.json()\<close>.
  \<open>Undefined\<close> stands for a missing body or field. A JSON number is kept as an
  integer: the handlers only look at its truthiness.
\<close>

datatype jsval =
    Undefined
  | Null
  | Bool bool
  | Num int
  | Str string
  | Arr "jsval list"
  | Obj "(string \<times> jsval) list"

text \<open>
  An exception that reaches a \<^verbatim>\<open>catch\<close>: the \<^verbatim>\<open>TypeError\<close> of the runtime, or the
  rejection of an awaited puppeteer call with its message.
\<close>

datatype js_error = TypeError | Rejected string

text \<open>
  Reading a field in \<^verbatim>\<open>const { filecryptUrl, sessionId } = req.body\<close>. Destructuring
  \<^verbatim>\<open>undefined\<close> or \<^verbatim>\<open>null\<close> throws; an object yields its own property or
  \<^verbatim>\<open>undefined\<close>; a primitive or an array has no property of these names. (The function
  is only used at the names \<^verbatim>\<open>filecryptUrl\<close> and \<^verbatim>\<open>sessionId\<close>, which no built-in
  prototype defines.)
\<close>

fun js_prop :: "jsval \<Rightarrow> string \<Rightarrow> js_error + jsval" where
  "js_prop Undefined k = Inl TypeError"
| "js_prop Null k = Inl TypeError"
| "js_prop (Obj kvs) k = Inr (case map_of kvs k of Some v \<Rightarrow> v | None \<Rightarrow> Undefined)"
| "js_prop v k = Inr Undefined"

text \<open>The truthiness test of \<^verbatim>\<open>if (sessionId && ...)\<close>.\<close>

fun truthy :: "jsval \<Rightarrow> bool" where
  "truthy Undefined = False"
| "truthy Null = False"
| "truthy (Bool b) = b"
| "truthy (Num n) = (n \<noteq> 0)"
| "truthy (Str s) = (s \<noteq> [])"
| "truthy (Arr xs) = True"
| "truthy (Obj kvs) = True"

section \<open>The regular expression of the two endpoints\<close>

text \<open>
  \<^verbatim>\<open>/filecrypt\.co\/(?:Container\/|Link\/)([A-Z0-9]+)/i\<close>, without the \<^verbatim>\<open>u\<close> flag.
  Under \<^verbatim>\<open>/i\<close> two code units match when their canonical forms agree; the canonical
  form of an ASCII lower-case letter is its upper-case letter, and a code unit outside
  ASCII is never mapped into ASCII, so it matches no character of this pattern. The
  canonical form is given as the number of the code unit.
\<close>

definition Canonicalize :: "char \<Rightarrow> nat" where
  "Canonicalize ch = (let n = of_char ch in if 97 \<le> n \<and> n \<le> 122 then n - 32 else n)"

text \<open>A pattern character against an input character.\<close>

definition char_matches :: "char \<Rightarrow> char \<Rightarrow> bool" where
  "char_matches p c \<longleftrightarrow> Canonicalize p = Canonicalize c"

text \<open>The class \<^verbatim>\<open>[A-Z0-9]\<close> under \<^verbatim>\<open>/i\<close>.\<close>

definition class_matches :: "char \<Rightarrow> bool" where
  "class_matches c \<longleftrightarrow>
     (let n = Canonicalize c in (65 \<le> n \<and> n \<le> 90) \<or> (48 \<le> n \<and> n \<le> 57))"

text \<open>A literal piece of the pattern at the head of the input; the rest of the input.\<close>

fun match_literal :: "string \<Rightarrow> string \<Rightarrow> string option" where
  "match_literal [] s = Some s"
| "match_literal (p # ps) [] = None"
| "match_literal (p # ps) (c # cs) = (if char_matches p c then match_literal ps cs else None)"

text \<open>
  The capture group \<^verbatim>\<open>([A-Z0-9]+)\<close>: greedy, at least one character, and nothing follows
  it in the pattern, so it takes the longest run.
\<close>

definition match_group :: "string \<Rightarrow> string option" where
  "match_group s = (let m = takeWhile class_matches s in if m = [] then None else Some m)"

text \<open>
  The whole pattern at one start position: the literal, then the first alternative, and
  the second alternative when the first does not lead to a match.
\<close>

definition match_here :: "string \<Rightarrow> string option" where
  "match_here s =
     (case match_literal ''filecrypt.co/'' s of
        None \<Rightarrow> None
      | Some r \<Rightarrow>
          (case (case match_literal ''Container/'' r of
                   None \<Rightarrow> None
                 | Some r1 \<Rightarrow> match_group r1) of
             Some m \<Rightarrow> Some m
           | None \<Rightarrow>
               (case match_literal ''Link/'' r of
                  None \<Rightarrow> None
                | Some r2 \<Rightarrow> match_group r2)))"

text \<open>
  \<^verbatim>\<open>str.match(re)\<close> for a regular expression without \<^verbatim>\<open>g\<close>: the start positions are
  tried from the left and the first match wins. The result is element 1 of the match
  array (the capture), or \<open>None\<close> for \<^verbatim>\<open>null\<close>.
\<close>

fun regex_exec :: "string \<Rightarrow> string option" where
  "regex_exec [] = match_here []"
| "regex_exec (c # cs) =
     (case match_here (c # cs) of Some m \<Rightarrow> Some m | None \<Rightarrow> regex_exec cs)"

text \<open>
  \<^verbatim>\<open>filecryptUrl.match(...)\<close> on whatever the body holds: only a string has a
  \<^verbatim>\<open>match\<close> method. On \<^verbatim>\<open>undefined\<close> and \<^verbatim>\<open>null\<close> the property access throws; on
  every other JSON value \<^verbatim>\<open>match\<close> is not a function, and the call throws.
\<close>

fun js_match :: "jsval \<Rightarrow> js_error + string option" where
  "js_match (Str s) = Inr (regex_exec s)"
| "js_match v = Inl TypeError"

text \<open>
  The pattern in the words of the specification: somewhere in the string stands
  \<^verbatim>\<open>filecrypt.co/\<close>, then \<^verbatim>\<open>Container/\<close> or \<^verbatim>\<open>Link/\<close>, in any mix of cases, followed by a
  non-empty alphanumeric identifier.
\<close>

definition same_ignoring_case :: "string \<Rightarrow> string \<Rightarrow> bool" where
  "same_ignoring_case a b \<longleftrightarrow> map Canonicalize a = map Canonicalize b"

definition matches_pattern :: "string \<Rightarrow> bool" where
  "matches_pattern u \<longleftrightarrow>
     (\<exists>pre lit ident rest.
        u = pre @ lit @ ident @ rest \<and>
        (same_ignoring_case lit ''filecrypt.co/Container/'' \<or>
         same_ignoring_case lit ''filecrypt.co/Link/'') \<and>
        ident \<noteq> [] \<and> list_all class_matches ident)"

section \<open>Sessions and the session store\<close>

text \<open>One element of the array that \<^verbatim>\<open>page.evaluate\<close> returns.\<close>

record link =
  url :: string
  text_content :: string

text \<open>
  A JavaScript \<^verbatim>\<open>Map\<close> keeps its entries in insertion order and its keys unique. It is
  an association list; \<open>map_set\<close> overwrites the value of a present key in place and
  appends an absent one, as \<^verbatim>\<open>Map.prototype.set\<close> does.
\<close>

type_synonym ('k, 'v) js_map = "('k \<times> 'v) list"

definition map_has :: "('k, 'v) js_map \<Rightarrow> 'k \<Rightarrow> bool" where
  "map_has m k \<longleftrightarrow> map_of m k \<noteq> None"

definition map_get :: "('k, 'v) js_map \<Rightarrow> 'k \<Rightarrow> 'v option" where
  "map_get m k = map_of m k"

fun map_set :: "'k \<Rightarrow> 'v \<Rightarrow> ('k, 'v) js_map \<Rightarrow> ('k, 'v) js_map" where
  "map_set k v [] = [(k, v)]"
| "map_set k v (e # es) = (if fst e = k then (k, v) # es else e # map_set k v es)"

definition map_delete :: "'k \<Rightarrow> ('k, 'v) js_map \<Rightarrow> ('k, 'v) js_map" where
  "map_delete k m = filter (\<lambda>e. fst e \<noteq> k) m"

definition map_values :: "('k, 'v) js_map \<Rightarrow> 'v list" where
  "map_values m = map snd m"

definition map_size :: "('k, 'v) js_map \<Rightarrow> nat" where
  "map_size m = length m"

text \<open>The keys of a \<^verbatim>\<open>Map\<close> are unique.\<close>

definition map_ok :: "('k, 'v) js_map \<Rightarrow> bool" where
  "map_ok m \<longleftrightarrow> distinct (map fst m)"

text \<open>
  The session object built in \<^verbatim>\<open>getFileCryptSession\<close>. A browser is named by a number;
  \<open>browser = None\<close> is a falsy \<^verbatim>\<open>session.browser\<close>. Times are milliseconds, as
  \<^verbatim>\<open>Date.now()\<close> gives them.
\<close>

record session =
  id_session :: string
  filecryptId :: string
  browser :: "nat option"
  createdAt :: int
  solvedLinks :: "(string, link) js_map"

text \<open>
  The two selectors the workflow waits for: \<^verbatim>\<open>iframe[title*="reCAPTCHA"]\<close> and
  \<^verbatim>\<open>a[href*="gofile.io"]\<close>.
\<close>

datatype selector = CaptchaFrame | GofileAnchor

text \<open>
  A call made to the browser-automation library. Pages are named by numbers;
  \<open>NewPage b\<close> is \<^verbatim>\<open>newPage()\<close> on browser \<open>b\<close>, the other page calls name their page.
\<close>

datatype browser_call =
    Launch
  | BrowserClose nat
  | NewPage nat
  | Goto nat string
  | WaitForSelector nat selector
  | Evaluate nat
  | PageClose nat

text \<open>
  The state of the process: the \<^verbatim>\<open>activeSessions\<close> map and the calls issued to the
  library so far, oldest first. A call is recorded when it is issued, whatever its
  outcome.
\<close>

record world =
  activeSessions :: "(string, session) js_map"
  calls :: "browser_call list"

text \<open>
  What the outside gives one request, in the order the source asks for it:
  \<^verbatim>\<open>Date.now()\<close> at the validity check, the result of \<^verbatim>\<open>puppeteer.launch\<close>,
  \<^verbatim>\<open>uuidv4()\<close>, \<^verbatim>\<open>Date.now()\<close> at creation, and the outcome of each awaited call on
  the browser and the page (\<open>None\<close>: it resolved; \<open>Some e\<close>: it rejected with \<open>e\<close>).
  The outcome of the wait for the CAPTCHA frame is part of the record although the
  source only logs it.
\<close>

record env =
  now_check :: int
  launch_result :: "js_error + nat"
  uuid :: string
  now_created :: int
  newPage_result :: "js_error + nat"
  goto_result :: "js_error option"
  captcha_wait_result :: "js_error option"
  links_wait_result :: "js_error option"
  evaluate_result :: "js_error + link list"
  close_result :: "js_error option"
  close_result_catch :: "js_error option"

text \<open>\<^verbatim>\<open>30 * 60 * 1000\<close>\<close>

definition expiredThreshold :: int where
  "expiredThreshold = 30 * 60 * 1000"

text \<open>
  \<^verbatim>\<open>await session.browser.close().catch(console.error)\<close> under \<^verbatim>\<open>if (session.browser)\<close>:
  the call is issued when there is a browser, and its rejection is swallowed.
\<close>

definition close_browser :: "session \<Rightarrow> browser_call list" where
  "close_browser s = (case browser s of None \<Rightarrow> [] | Some b \<Rightarrow> [BrowserClose b])"

text \<open>Lines 32 to 47 of \<^verbatim>\<open>getFileCryptSession\<close>: launch, build, store, return.\<close>

definition create_session :: "env \<Rightarrow> string \<Rightarrow> world \<Rightarrow> (js_error + session) \<times> world" where
  "create_session e fid w =
     (let w1 = w\<lparr>calls := calls w @ [Launch]\<rparr> in
      case launch_result e of
        Inl err \<Rightarrow> (Inl err, w1)
      | Inr b \<Rightarrow>
          (let s = \<lparr>id_session = uuid e, filecryptId = fid, browser = Some b,
                    createdAt = now_created e, solvedLinks = []\<rparr>
           in (Inr s, w1\<lparr>activeSessions := map_set fid s (activeSessions w1)\<rparr>)))"

definition getFileCryptSession :: "env \<Rightarrow> string \<Rightarrow> world \<Rightarrow> (js_error + session) \<times> world" where
  "getFileCryptSession e fid w =
     (if map_has (activeSessions w) fid then
        (case map_get (activeSessions w) fid of
           None \<Rightarrow> create_session e fid w
         | Some s \<Rightarrow>
             if now_check e - createdAt s < 30 * 60 * 1000 then (Inr s, w)
             else create_session e fid
                    (w\<lparr>calls := calls w @ close_browser s,
                       activeSessions := map_delete fid (activeSessions w)\<rparr>))
      else create_session e fid w)"

section \<open>Responses\<close>

text \<open>
  The JSON bodies the handlers send. \<open>Failure\<close> carries one of the fixed error strings of
  the source, \<open>Unexpected\<close> the \<^verbatim>\<open>error.message\<close> of a caught exception, and
  \<open>SolveTimedOut\<close> is the body with the fixed "Timed out waiting for links to appear"
  text and the session id.
\<close>

datatype body =
    SolveSuccess "link list" string
  | SolveTimedOut string
  | LinksSuccess "link list" string
  | CleanupSuccess nat nat
  | Failure string
  | Unexpected js_error

datatype response = Response nat body

fun status :: "response \<Rightarrow> nat" where
  "status (Response n b) = n"

text \<open>The \<^verbatim>\<open>sessionId\<close> field of a response, when it has one.\<close>

fun response_sessionId :: "response \<Rightarrow> string option" where
  "response_sessionId (Response n (SolveSuccess ls i)) = Some i"
| "response_sessionId (Response n (SolveTimedOut i)) = Some i"
| "response_sessionId (Response n (LinksSuccess ls i)) = Some i"
| "response_sessionId (Response n b) = None"

section \<open>POST /solve-filecrypt\<close>

text \<open>The receiver of \<^verbatim>\<open>.match\<close> and the argument of \<^verbatim>\<open>page.goto\<close>, when it is a string.\<close>

fun as_string :: "jsval \<Rightarrow> string option" where
  "as_string (Str s) = Some s"
| "as_string v = None"

text \<open>
  \<^verbatim>\<open>gofileLinks.forEach(link => session.solvedLinks.set(link.url, link))\<close>
\<close>

definition store_links :: "link list \<Rightarrow> session \<Rightarrow> session" where
  "store_links ls s = s\<lparr>solvedLinks := fold (\<lambda>l m. map_set (url l) l m) ls (solvedLinks s)\<rparr>"

text \<open>The inner \<^verbatim>\<open>catch (e)\<close> block, lines 110 to 118.\<close>

definition links_catch :: "env \<Rightarrow> session \<Rightarrow> nat \<Rightarrow> world \<Rightarrow> response \<times> world" where
  "links_catch e s page w =
     (let w1 = w\<lparr>calls := calls w @ [PageClose page]\<rparr> in
      case close_result_catch e of
        Some err \<Rightarrow> (Response 500 (Unexpected err), w1)
      | None \<Rightarrow> (Response 200 (SolveTimedOut (id_session s)), w1))"

text \<open>
  The inner \<^verbatim>\<open>try\<close> block, lines 80 to 109. The session object is the one held by
  \<^verbatim>\<open>activeSessions\<close> under \<open>fid\<close> (see \<open>getFileCryptSession_stored\<close> below), so the
  writes to \<^verbatim>\<open>session.solvedLinks\<close> are writes to that entry. Any exception inside
  the block, not only the timeout of the wait, goes to the \<^verbatim>\<open>catch\<close> block.
\<close>

definition extract_links :: "env \<Rightarrow> string \<Rightarrow> session \<Rightarrow> nat \<Rightarrow> world \<Rightarrow> response \<times> world" where
  "extract_links e fid s page w =
     (let w1 = w\<lparr>calls := calls w @ [WaitForSelector page GofileAnchor]\<rparr> in
      case links_wait_result e of
        Some err \<Rightarrow> links_catch e s page w1
      | None \<Rightarrow>
          (let w2 = w1\<lparr>calls := calls w1 @ [Evaluate page]\<rparr> in
           case evaluate_result e of
             Inl err \<Rightarrow> links_catch e s page w2
           | Inr gofileLinks \<Rightarrow>
               (let w3 = w2\<lparr>activeSessions :=
                              map_set fid (store_links gofileLinks s) (activeSessions w2),
                            calls := calls w2 @ [PageClose page]\<rparr> in
                case close_result e of
                  Some err \<Rightarrow> links_catch e (store_links gofileLinks s) page w3
                | None \<Rightarrow>
                    (Response 200 (SolveSuccess gofileLinks (id_session s)), w3))))"

text \<open>Lines 65 to 72: open a page, navigate, probe for the CAPTCHA frame.\<close>

definition open_page :: "env \<Rightarrow> string \<Rightarrow> string \<Rightarrow> session \<Rightarrow> world \<Rightarrow> response \<times> world" where
  "open_page e u fid s w =
     (case browser s of
        None \<Rightarrow> (Response 500 (Unexpected TypeError), w)
      | Some b \<Rightarrow>
          (let w1 = w\<lparr>calls := calls w @ [NewPage b]\<rparr> in
           case newPage_result e of
             Inl err \<Rightarrow> (Response 500 (Unexpected err), w1)
           | Inr page \<Rightarrow>
               (let w2 = w1\<lparr>calls := calls w1 @ [Goto page u]\<rparr> in
                case goto_result e of
                  Some err \<Rightarrow> (Response 500 (Unexpected err), w2)
                | None \<Rightarrow>
                    extract_links e fid s page
                      (w2\<lparr>calls := calls w2 @ [WaitForSelector page CaptchaFrame]\<rparr>))))"

definition solve_filecrypt :: "env \<Rightarrow> world \<Rightarrow> jsval \<Rightarrow> response \<times> world" where
  "solve_filecrypt e w req_body =
     (case js_prop req_body ''filecryptUrl'' of
        Inl err \<Rightarrow> (Response 500 (Unexpected err), w)
      | Inr filecryptUrl \<Rightarrow>
          (case js_match filecryptUrl of
             Inl err \<Rightarrow> (Response 500 (Unexpected err), w)
           | Inr None \<Rightarrow> (Response 400 (Failure ''Invalid FileCrypt URL''), w)
           | Inr (Some fid) \<Rightarrow>
               (case getFileCryptSession e fid w of
                  (Inl err, w1) \<Rightarrow> (Response 500 (Unexpected err), w1)
                | (Inr s, w1) \<Rightarrow>
                    (case as_string filecryptUrl of
                       None \<Rightarrow> (Response 500 (Unexpected TypeError), w1)
                     | Some u \<Rightarrow> open_page e u fid s w1))))"

section \<open>POST /get-solved-links\<close>

definition get_solved_links :: "world \<Rightarrow> jsval \<Rightarrow> response \<times> world" where
  "get_solved_links w req_body =
     (case js_prop req_body ''filecryptUrl'' of
        Inl err \<Rightarrow> (Response 500 (Unexpected err), w)
      | Inr filecryptUrl \<Rightarrow>
          (case js_prop req_body ''sessionId'' of
             Inl err \<Rightarrow> (Response 500 (Unexpected err), w)
           | Inr sessionId \<Rightarrow>
               (case js_match filecryptUrl of
                  Inl err \<Rightarrow> (Response 500 (Unexpected err), w)
                | Inr None \<Rightarrow> (Response 400 (Failure ''Invalid FileCrypt URL''), w)
                | Inr (Some fid) \<Rightarrow>
                    if \<not> map_has (activeSessions w) fid
                    then (Response 404 (Failure ''No active session found''), w)
                    else
                      (case map_get (activeSessions w) fid of
                         None \<Rightarrow> (Response 500 (Unexpected TypeError), w)
                       | Some s \<Rightarrow>
                           if truthy sessionId \<and> Str (id_session s) \<noteq> sessionId
                           then (Response 403 (Failure ''Invalid session ID''), w)
                           else (Response 200
                                   (LinksSuccess (map_values (solvedLinks s)) (id_session s)),
                                 w)))))"

section \<open>POST /cleanup-sessions\<close>

text \<open>
  The \<^verbatim>\<open>for ... of activeSessions.entries()\<close> loop, over the entries still to visit.
  Deleting the entry being visited does not disturb the iteration of a \<^verbatim>\<open>Map\<close>.
\<close>

fun cleanup_loop :: "int \<Rightarrow> (string \<times> session) list \<Rightarrow> world \<Rightarrow> nat \<Rightarrow> world \<times> nat" where
  "cleanup_loop now [] w cleanedCount = (w, cleanedCount)"
| "cleanup_loop now ((fid, s) # rest) w cleanedCount =
     (if now - createdAt s > expiredThreshold
      then cleanup_loop now rest
             (w\<lparr>calls := calls w @ close_browser s,
                activeSessions := map_delete fid (activeSessions w)\<rparr>)
             (cleanedCount + 1)
      else cleanup_loop now rest w cleanedCount)"

text \<open>
  The handler; \<open>now\<close> is \<^verbatim>\<open>Date.now()\<close> at line 173. The response carries
  \<^verbatim>\<open>cleanedCount\<close> (inside its message) and \<^verbatim>\<open>activeSessions.size\<close>.
\<close>

definition cleanup_sessions :: "int \<Rightarrow> world \<Rightarrow> response \<times> world" where
  "cleanup_sessions now w =
     (case cleanup_loop now (activeSessions w) w 0 of
        (w1, cleanedCount) \<Rightarrow>
          (Response 200 (CleanupSuccess cleanedCount (map_size (activeSessions w1))), w1))"

section \<open>Auxiliary definitions\<close>

text \<open>One alternative of the pattern, written as a single literal before the group.\<close>

definition match_style :: "string \<Rightarrow> string \<Rightarrow> string option" where
  "match_style lit s = (case match_literal lit s of None \<Rightarrow> None | Some r \<Rightarrow> match_group r)"

text \<open>
  The object literal of lines 38 to 44, for the browser \<open>b\<close> that \<^verbatim>\<open>puppeteer.launch\<close>
  returned.
\<close>

definition fresh_session :: "env \<Rightarrow> string \<Rightarrow> nat \<Rightarrow> session" where
  "fresh_session e fid b =
     \<lparr>id_session = uuid e, filecryptId = fid, browser = Some b,
      createdAt = now_created e, solvedLinks = []\<rparr>"

text \<open>
  The test of the cleanup loop on one entry of the store: the session is older than the
  threshold at time \<open>now\<close>.
\<close>

definition expired :: "int \<Rightarrow> string \<times> session \<Rightarrow> bool" where
  "expired now entry \<longleftrightarrow> now - createdAt (snd entry) > expiredThreshold"

text \<open>The \<^verbatim>\<open>browser.close()\<close> calls for a list of entries, in their order.\<close>

definition closes_of :: "(string \<times> session) list \<Rightarrow> browser_call list" where
  "closes_of es = concat (map (\<lambda>entry. close_browser (snd entry)) es)"

text \<open>
  The state after a sweep at time \<open>now\<close>: the entries that are not expired, in their
  order, and one close call for the browser of each expired entry.
\<close>

definition swept :: "int \<Rightarrow> world \<Rightarrow> world" where
  "swept now w =
     w\<lparr>calls := calls w @ closes_of (filter (expired now) (activeSessions w)),
       activeSessions := filter (\<lambda>entry. \<not> expired now entry) (activeSessions w)\<rparr>"

text \<open>
  What every state reached from the empty store satisfies: the keys of the store are
  unique, each session is stored under its own \<^verbatim>\<open>filecryptId\<close>, and each has a browser.
\<close>

definition store_ok :: "world \<Rightarrow> bool" where
  "store_ok w \<longleftrightarrow>
     map_ok (activeSessions w) \<and>
     (\<forall>entry\<in>set (activeSessions w).
        filecryptId (snd entry) = fst entry \<and> browser (snd entry) \<noteq> None)"

section \<open>Example data\<close>

text \<open>
  A store holding one session for \<^verbatim>\<open>ABC123\<close>, created at time 1000 with two links
  already extracted, and the outside of a request in which every call resolves.
\<close>

definition example_url :: string where
  "example_url = ''https://filecrypt.co/Container/ABC123''"

definition example_links :: "link list" where
  "example_links =
     [\<lparr>url = ''https://gofile.io/d/a1'', text_content = ''part 1''\<rparr>,
      \<lparr>url = ''https://gofile.io/d/b2'', text_content = ''part 2''\<rparr>]"

definition example_session :: session where
  "example_session =
     \<lparr>id_session = ''0b6e6d0e'', filecryptId = ''ABC123'', browser = Some 7,
      createdAt = 1000,
      solvedLinks =
        [(''https://gofile.io/d/a1'',
          \<lparr>url = ''https://gofile.io/d/a1'', text_content = ''part 1''\<rparr>),
         (''https://gofile.io/d/b2'',
          \<lparr>url = ''https://gofile.io/d/b2'', text_content = ''part 2''\<rparr>)]\<rparr>"

definition example_world :: world where
  "example_world = \<lparr>activeSessions = [(''ABC123'', example_session)], calls = [Launch]\<rparr>"

definition empty_world :: world where
  "empty_world = \<lparr>activeSessions = [], calls = []\<rparr>"

definition example_env :: env where
  "example_env =
     \<lparr>now_check = 2000, launch_result = Inr 8, uuid = ''5c1d2a9f'', now_created = 2500,
      newPage_result = Inr 1, goto_result = None, captcha_wait_result = None,
      links_wait_result = None,
      evaluate_result =
        Inr [\<lparr>url = ''https://gofile.io/d/b2'', text_content = ''second''\<rparr>,
             \<lparr>url = ''https://gofile.io/d/c3'', text_content = ''part 3''\<rparr>],
      close_result = None, close_result_catch = None\<rparr>"

text \<open>The same outside, read more than 30 minutes after the example session was created.\<close>

definition late_env :: env where
  "late_env = example_env\<lparr>now_check := 5000000, now_created := 5000350\<rparr>"

text \<open>The outside of a request whose wait for the result links times out.\<close>

definition timeout_env :: env where
  "timeout_env = example_env\<lparr>links_wait_result := Some (Rejected ''TimeoutError'')\<rparr>"

text \<open>A store with the example session and a second, younger one.\<close>

definition young_session :: session where
  "young_session =
     \<lparr>id_session = ''77aa01c4'', filecryptId = ''XYZ789'', browser = Some 9,
      createdAt = 4000000,
      solvedLinks =
        [(''https://gofile.io/d/z9'',
          \<lparr>url = ''https://gofile.io/d/z9'', text_content = ''archive''\<rparr>)]\<rparr>"

definition two_sessions_world :: world where
  "two_sessions_world =
     \<lparr>activeSessions = [(''ABC123'', example_session), (''XYZ789'', young_session)],
      calls = [Launch, Launch]\<rparr>"

definition container_body :: jsval where
  "container_body = Obj [(''filecryptUrl'', Str ''https://filecrypt.co/Container/ABC123'')]"

definition link_body :: jsval where
  "link_body = Obj [(''filecryptUrl'', Str ''https://filecrypt.co/Link/ABC123'')]"

text \<open>
  The session and the state that the first request for \<^verbatim>\<open>ABC123\<close> leaves behind when it
  starts from the empty store, and the outside of a second request ten minutes later.
\<close>

definition first_session :: session where
  "first_session =
     \<lparr>id_session = ''5c1d2a9f'', filecryptId = ''ABC123'', browser = Some 8,
      createdAt = 2500,
      solvedLinks =
        [(''https://gofile.io/d/b2'',
          \<lparr>url = ''https://gofile.io/d/b2'', text_content = ''second''\<rparr>),
         (''https://gofile.io/d/c3'',
          \<lparr>url = ''https://gofile.io/d/c3'', text_content = ''part 3''\<rparr>)]\<rparr>"

definition after_first :: world where
  "after_first =
     \<lparr>activeSessions = [(''ABC123'', first_session)],
      calls = [Launch, NewPage 8, Goto 1 ''https://filecrypt.co/Container/ABC123'',
               WaitForSelector 1 CaptchaFrame, WaitForSelector 1 GofileAnchor,
               Evaluate 1, PageClose 1]\<rparr>"

definition second_env :: env where
  "second_env = example_env\<lparr>now_check := 600000, launch_result := Inr 9, uuid := ''e0e0e0e0''\<rparr>"

text \<open>The example store after the example request has merged its two links.\<close>

definition merged_world :: world where
  "merged_world =
     \<lparr>activeSessions =
        [(''ABC123'',
          example_session\<lparr>solvedLinks :=
            [(''https://gofile.io/d/a1'',
              \<lparr>url = ''https://gofile.io/d/a1'', text_content = ''part 1''\<rparr>),
             (''https://gofile.io/d/b2'',
              \<lparr>url = ''https://gofile.io/d/b2'', text_content = ''second''\<rparr>),
             (''https://gofile.io/d/c3'',
              \<lparr>url = ''https://gofile.io/d/c3'', text_content = ''part 3''\<rparr>)]\<rparr>)],
      calls = [Launch, NewPage 7, Goto 1 ''https://filecrypt.co/Container/ABC123'',
               WaitForSelector 1 CaptchaFrame, WaitForSelector 1 GofileAnchor,
               Evaluate 1, PageClose 1]\<rparr>"

text \<open>
  The outside of a request in which the probe for the CAPTCHA frame is rejected and every
  other call resolves.
\<close>

definition no_captcha_env :: env where
  "no_captcha_env = example_env\<lparr>captcha_wait_result := Some (Rejected ''TimeoutError'')\<rparr>"

section \<open>The regular expression and the pattern of the specification\<close>

lemmas regex_defs = match_here_def match_group_def char_matches_def class_matches_def
  Canonicalize_def Let_def

lemma match_literal_append:
  "match_literal (p @ q) s =
     (case match_literal p s of None \<Rightarrow> None | Some r \<Rightarrow> match_literal q r)"
proof (induction p s rule: match_literal.induct)
  case (1 s) show ?case by simp
next
  case (2 p ps) show ?case by simp
next
  case (3 p ps c cs) then show ?case by simp
qed

lemma match_literal_Some_iff:
  "match_literal p s = Some r \<longleftrightarrow> (\<exists>l. s = l @ r \<and> same_ignoring_case l p)"
proof (induction p s rule: match_literal.induct)
  case (1 s)
  show ?case by (auto simp: same_ignoring_case_def)
next
  case (2 p ps)
  show ?case by (auto simp: same_ignoring_case_def)
next
  case (3 p ps c cs)
  show ?case
  proof
    assume "match_literal (p # ps) (c # cs) = Some r"
    then have m: "char_matches p c" and "match_literal ps cs = Some r"
      by (auto split: if_splits)
    with 3 obtain l where "cs = l @ r" "same_ignoring_case l ps" by auto
    with m have "c # cs = (c # l) @ r \<and> same_ignoring_case (c # l) (p # ps)"
      by (simp add: same_ignoring_case_def char_matches_def)
    then show "\<exists>l. c # cs = l @ r \<and> same_ignoring_case l (p # ps)" by blast
  next
    assume "\<exists>l. c # cs = l @ r \<and> same_ignoring_case l (p # ps)"
    then obtain l where l: "c # cs = l @ r" "same_ignoring_case l (p # ps)" by blast
    then obtain l' where l': "l = c # l'"
      by (cases l) (auto simp: same_ignoring_case_def)
    with l have "char_matches p c" "cs = l' @ r" "same_ignoring_case l' ps"
      by (auto simp: same_ignoring_case_def char_matches_def)
    with 3 show "match_literal (p # ps) (c # cs) = Some r" by auto
  qed
qed

lemma match_group_Some_iff:
  "(\<exists>m. match_group s = Some m) \<longleftrightarrow>
   (\<exists>ident rest. s = ident @ rest \<and> ident \<noteq> [] \<and> list_all class_matches ident)"
proof
  assume "\<exists>m. match_group s = Some m"
  then have ne: "takeWhile class_matches s \<noteq> []"
    by (auto simp: match_group_def Let_def split: if_splits)
  have "s = takeWhile class_matches s @ dropWhile class_matches s" by simp
  moreover have "list_all class_matches (takeWhile class_matches s)"
    by (simp add: list_all_iff) (meson set_takeWhileD)
  ultimately show "\<exists>ident rest. s = ident @ rest \<and> ident \<noteq> [] \<and> list_all class_matches ident"
    using ne by blast
next
  assume "\<exists>ident rest. s = ident @ rest \<and> ident \<noteq> [] \<and> list_all class_matches ident"
  then obtain ident rest where s: "s = ident @ rest" "ident \<noteq> []" "list_all class_matches ident"
    by blast
  then obtain x xs where "ident = x # xs" by (cases ident) auto
  with s have "takeWhile class_matches s \<noteq> []" by simp
  then show "\<exists>m. match_group s = Some m" by (simp add: match_group_def Let_def)
qed

lemma match_here_styles:
  "match_here s =
     (case match_style (''filecrypt.co/'' @ ''Container/'') s of
        Some m \<Rightarrow> Some m
      | None \<Rightarrow> match_style (''filecrypt.co/'' @ ''Link/'') s)"
  by (simp only: match_style_def match_here_def match_literal_append)
     (simp split: option.splits)

lemma match_style_Some_iff:
  "(\<exists>m. match_style lit s = Some m) \<longleftrightarrow>
   (\<exists>l ident rest. s = l @ ident @ rest \<and> same_ignoring_case l lit \<and>
      ident \<noteq> [] \<and> list_all class_matches ident)"
proof -
  have "(\<exists>m. match_style lit s = Some m) \<longleftrightarrow>
        (\<exists>r. match_literal lit s = Some r \<and> (\<exists>m. match_group r = Some m))"
    by (auto simp: match_style_def split: option.splits)
  also have "\<dots> \<longleftrightarrow> (\<exists>r l. s = l @ r \<and> same_ignoring_case l lit \<and>
      (\<exists>ident rest. r = ident @ rest \<and> ident \<noteq> [] \<and> list_all class_matches ident))"
    unfolding match_literal_Some_iff match_group_Some_iff by blast
  also have "\<dots> \<longleftrightarrow> (\<exists>l ident rest. s = l @ ident @ rest \<and> same_ignoring_case l lit \<and>
      ident \<noteq> [] \<and> list_all class_matches ident)"
    by blast
  finally show ?thesis .
qed

lemma match_here_Some_iff:
  "(\<exists>m. match_here s = Some m) \<longleftrightarrow>
   (\<exists>lit ident rest. s = lit @ ident @ rest \<and>
      (same_ignoring_case lit ''filecrypt.co/Container/'' \<or>
       same_ignoring_case lit ''filecrypt.co/Link/'') \<and>
      ident \<noteq> [] \<and> list_all class_matches ident)"
proof -
  have "(\<exists>m. match_here s = Some m) \<longleftrightarrow>
        (\<exists>m. match_style ''filecrypt.co/Container/'' s = Some m) \<or>
        (\<exists>m. match_style ''filecrypt.co/Link/'' s = Some m)"
    unfolding match_here_styles by (auto split: option.splits)
  also have "\<dots> \<longleftrightarrow> (\<exists>lit ident rest. s = lit @ ident @ rest \<and>
      (same_ignoring_case lit ''filecrypt.co/Container/'' \<or>
       same_ignoring_case lit ''filecrypt.co/Link/'') \<and>
      ident \<noteq> [] \<and> list_all class_matches ident)"
    unfolding match_style_Some_iff by blast
  finally show ?thesis .
qed

lemma regex_exec_Some_iff:
  "(\<exists>m. regex_exec u = Some m) \<longleftrightarrow> (\<exists>pre suf. u = pre @ suf \<and> (\<exists>m. match_here suf = Some m))"
proof (induction u)
  case Nil
  show ?case by simp
next
  case (Cons c cs)
  show ?case
  proof (cases "match_here (c # cs)")
    case (Some m)
    then have "c # cs = [] @ (c # cs) \<and> (\<exists>m. match_here (c # cs) = Some m)" by simp
    then have "\<exists>pre suf. c # cs = pre @ suf \<and> (\<exists>m. match_here suf = Some m)" by blast
    with Some show ?thesis by simp
  next
    case None
    have "(\<exists>pre suf. c # cs = pre @ suf \<and> (\<exists>m. match_here suf = Some m)) \<longleftrightarrow>
          (\<exists>pre suf. cs = pre @ suf \<and> (\<exists>m. match_here suf = Some m))"
    proof
      assume "\<exists>pre suf. c # cs = pre @ suf \<and> (\<exists>m. match_here suf = Some m)"
      then obtain pre suf m where p: "c # cs = pre @ suf" "match_here suf = Some m" by blast
      with None have "pre \<noteq> []" by (cases pre) auto
      then obtain pre' where "pre = c # pre'" using p(1) by (cases pre) auto
      with p show "\<exists>pre suf. cs = pre @ suf \<and> (\<exists>m. match_here suf = Some m)" by auto
    next
      assume "\<exists>pre suf. cs = pre @ suf \<and> (\<exists>m. match_here suf = Some m)"
      then obtain pre suf m where "cs = pre @ suf" "match_here suf = Some m" by blast
      then have "c # cs = (c # pre) @ suf \<and> (\<exists>m. match_here suf = Some m)" by simp
      then show "\<exists>pre suf. c # cs = pre @ suf \<and> (\<exists>m. match_here suf = Some m)" by blast
    qed
    with None Cons show ?thesis by simp
  qed
qed

lemma regex_exec_matches_pattern: "(\<exists>m. regex_exec u = Some m) \<longleftrightarrow> matches_pattern u"
proof
  assume "\<exists>m. regex_exec u = Some m"
  then obtain pre suf where u: "u = pre @ suf" and "\<exists>m. match_here suf = Some m"
    unfolding regex_exec_Some_iff by blast
  then obtain lit ident rest where "suf = lit @ ident @ rest"
      "same_ignoring_case lit ''filecrypt.co/Container/'' \<or>
       same_ignoring_case lit ''filecrypt.co/Link/''"
      "ident \<noteq> []" "list_all class_matches ident"
    unfolding match_here_Some_iff by blast
  with u show "matches_pattern u"
    unfolding matches_pattern_def by blast
next
  assume "matches_pattern u"
  then obtain pre lit ident rest where u: "u = pre @ lit @ ident @ rest"
      and r: "same_ignoring_case lit ''filecrypt.co/Container/'' \<or>
       same_ignoring_case lit ''filecrypt.co/Link/''"
      "ident \<noteq> []" "list_all class_matches ident"
    unfolding matches_pattern_def by blast
  from r have "\<exists>m. match_here (lit @ ident @ rest) = Some m"
    unfolding match_here_Some_iff by blast
  with u show "\<exists>m. regex_exec u = Some m"
    unfolding regex_exec_Some_iff by blast
qed

lemma regex_exec_None_iff: "regex_exec u = None \<longleftrightarrow> \<not> matches_pattern u"
  using regex_exec_matches_pattern [of u] by auto

lemma matches_patternI:
  assumes "same_ignoring_case lit ''filecrypt.co/Container/'' \<or>
           same_ignoring_case lit ''filecrypt.co/Link/''"
    and "ident \<noteq> []" and "list_all class_matches ident"
  shows "matches_pattern (pre @ lit @ ident @ rest)"
  unfolding matches_pattern_def using assms by blast

text \<open>
  A match attempt that starts before an occurrence of \<^verbatim>\<open>filecrypt.co/\<close> never reads
  past the dot of that occurrence: the only dot of the pattern is its tenth character, and
  the capture group stops at a dot.
\<close>

lemma match_style_Nil: "match_style [] s = match_group s"
  by (simp add: match_style_def)

lemma match_style_Cons:
  "match_style (p # ps) (c # cs) = (if char_matches p c then match_style ps cs else None)"
  by (simp add: match_style_def)

lemma match_style_Cons_Nil: "match_style (p # ps) [] = None"
  by (simp add: match_style_def)

lemma dot_not_in_class: "\<not> class_matches CHR ''.''"
  by (simp add: class_matches_def Canonicalize_def)

lemma class_not_dot: "class_matches c \<Longrightarrow> \<not> char_matches CHR ''.'' c"
  by (auto simp: class_matches_def char_matches_def Canonicalize_def Let_def split: if_splits)

lemma takeWhile_stop:
  assumes "\<not> P x" and "list_all P G"
  shows "takeWhile P (Q @ G @ x # T) = takeWhile P (Q @ G)"
proof -
  from assms(2) have all: "\<forall>y\<in>set G. P y" by (simp add: list_all_iff)
  then have b1: "takeWhile P (G @ x # T) = G" using assms(1) by simp
  from all have b2: "takeWhile P G = G" by (simp add: takeWhile_eq_all_conv)
  have base: "takeWhile P (G @ x # T) = takeWhile P G" unfolding b1 b2 ..
  show ?thesis by (induction Q) (simp_all add: base)
qed

lemma match_group_stop:
  assumes "list_all class_matches G"
  shows "match_group (Q @ G @ CHR ''.'' # T1) = match_group (Q @ G @ CHR ''.'' # T2)"
  using takeWhile_stop [OF dot_not_in_class assms]
  by (simp add: match_group_def)

lemma match_style_no_dot:
  assumes "\<forall>p\<in>set lit. \<not> char_matches p CHR ''.''" and "list_all class_matches G"
  shows "match_style lit (Q @ G @ CHR ''.'' # T1) = match_style lit (Q @ G @ CHR ''.'' # T2)"
  using assms(1)
proof (induction Q arbitrary: lit)
  case Nil
  then show ?case using assms(2)
  proof (induction G arbitrary: lit)
    case Nil
    then show ?case
      by (cases lit) (simp_all add: match_style_Cons match_style_Nil match_group_def dot_not_in_class)
  next
    case (Cons g G)
    show ?case
    proof (cases lit)
      case Nil
      with match_group_stop [of "g # G" "[]" T1 T2] Cons.prems(2) show ?thesis
        by (simp add: match_style_Nil)
    next
      case (Cons p ps)
      with Cons.IH [of ps] Cons.prems show ?thesis
        by (simp add: match_style_Cons)
    qed
  qed
next
  case (Cons q Q)
  show ?case
  proof (cases lit)
    case Nil
    with match_group_stop [OF assms(2), of "q # Q" T1 T2] show ?thesis
      by (simp add: match_style_Nil)
  next
    case (Cons p ps)
    with Cons.IH [of ps] Cons.prems show ?thesis
      by (simp add: match_style_Cons)
  qed
qed

lemma match_style_dot_late:
  assumes "length A < length G" and "list_all class_matches G"
  shows "match_style (A @ CHR ''.'' # B) (G @ R) = None"
  using assms
proof (induction A arbitrary: G)
  case Nil
  then obtain g G' where "G = g # G'" by (cases G) auto
  with Nil show ?case by (simp add: match_style_Cons class_not_dot)
next
  case (Cons a A)
  then obtain g G' where "G = g # G'" by (cases G) auto
  with Cons show ?case by (simp add: match_style_Cons)
qed

lemma match_style_straddle:
  assumes "length A < length Q + length G"
    and "\<forall>p\<in>set B. \<not> char_matches p CHR ''.''"
    and "list_all class_matches G"
  shows "match_style (A @ CHR ''.'' # B) (Q @ G @ CHR ''.'' # T1) =
         match_style (A @ CHR ''.'' # B) (Q @ G @ CHR ''.'' # T2)"
  using assms(1)
proof (induction Q arbitrary: A)
  case Nil
  then show ?case
    by (simp add: match_style_dot_late [OF _ assms(3)])
next
  case (Cons q Q)
  show ?case
  proof (cases A)
    case Nil
    with match_style_no_dot [OF assms(2,3), of Q T1 T2] show ?thesis
      by (simp add: match_style_Cons)
  next
    case (Cons a A')
    with Cons.IH [of A'] Cons.prems show ?thesis
      by (simp add: match_style_Cons)
  qed
qed

lemma match_here_two_styles:
  "match_here s =
     (case match_style ''filecrypt.co/Container/'' s of
        Some m \<Rightarrow> Some m
      | None \<Rightarrow> match_style ''filecrypt.co/Link/'' s)"
  using match_here_styles [of s] by (simp cong: option.case_cong)

lemma match_here_straddle:
  assumes "Q \<noteq> []"
  shows "match_here (Q @ ''filecrypt.co/'' @ T1) = match_here (Q @ ''filecrypt.co/'' @ T2)"
proof -
  have g: "list_all class_matches ''filecrypt''"
    by (simp add: class_matches_def Canonicalize_def)
  have c: "\<forall>p\<in>set ''co/Container/''. \<not> char_matches p CHR ''.''"
    and l: "\<forall>p\<in>set ''co/Link/''. \<not> char_matches p CHR ''.''"
    by (simp_all add: char_matches_def Canonicalize_def)
  have len: "length ''filecrypt'' < length Q + length ''filecrypt''"
    using assms by (cases Q) simp_all
  have a: "match_style ''filecrypt.co/Container/'' (Q @ ''filecrypt.co/'' @ T1) =
        match_style ''filecrypt.co/Container/'' (Q @ ''filecrypt.co/'' @ T2)"
    using match_style_straddle [OF len c g, of "''co/'' @ T1" "''co/'' @ T2"] by simp
  have b: "match_style ''filecrypt.co/Link/'' (Q @ ''filecrypt.co/'' @ T1) =
        match_style ''filecrypt.co/Link/'' (Q @ ''filecrypt.co/'' @ T2)"
    using match_style_straddle [OF len l g, of "''co/'' @ T1" "''co/'' @ T2"] by simp
  have "match_here (Q @ ''filecrypt.co/'' @ T1) =
        (case match_style ''filecrypt.co/Container/'' (Q @ ''filecrypt.co/'' @ T1) of
           Some m \<Rightarrow> Some m
         | None \<Rightarrow> match_style ''filecrypt.co/Link/'' (Q @ ''filecrypt.co/'' @ T1))"
    by (rule match_here_two_styles)
  also have "\<dots> =
        (case match_style ''filecrypt.co/Container/'' (Q @ ''filecrypt.co/'' @ T2) of
           Some m \<Rightarrow> Some m
         | None \<Rightarrow> match_style ''filecrypt.co/Link/'' (Q @ ''filecrypt.co/'' @ T2))"
    unfolding a b ..
  also have "\<dots> = match_here (Q @ ''filecrypt.co/'' @ T2)"
    by (rule match_here_two_styles [symmetric])
  finally show ?thesis .
qed

lemma regex_exec_at_style:
  "regex_exec (''filecrypt.co/Container/'' @ R) =
     (case match_group R of Some m \<Rightarrow> Some m | None \<Rightarrow> regex_exec R)"
  "regex_exec (''filecrypt.co/Link/'' @ R) =
     (case match_group R of Some m \<Rightarrow> Some m | None \<Rightarrow> regex_exec R)"
  by (simp_all add: match_here_def char_matches_def Canonicalize_def split: option.splits)

lemma path_style_same_siteId:
  "regex_exec (P @ ''filecrypt.co/Container/'' @ R) = regex_exec (P @ ''filecrypt.co/Link/'' @ R)"
proof (induction P)
  case Nil
  show ?case by (simp only: append_Nil regex_exec_at_style)
next
  case (Cons c P)
  have h: "match_here (c # P @ ''filecrypt.co/Container/'' @ R) =
        match_here (c # P @ ''filecrypt.co/Link/'' @ R)"
    using match_here_straddle [of "c # P" "''Container/'' @ R" "''Link/'' @ R"] by simp
  have "regex_exec ((c # P) @ ''filecrypt.co/Container/'' @ R) =
        (case match_here (c # P @ ''filecrypt.co/Container/'' @ R) of
           Some m \<Rightarrow> Some m
         | None \<Rightarrow> regex_exec (P @ ''filecrypt.co/Container/'' @ R))"
    by (simp only: append_Cons regex_exec.simps)
  also have "\<dots> =
        (case match_here (c # P @ ''filecrypt.co/Link/'' @ R) of
           Some m \<Rightarrow> Some m
         | None \<Rightarrow> regex_exec (P @ ''filecrypt.co/Link/'' @ R))"
    unfolding h Cons.IH ..
  also have "\<dots> = regex_exec ((c # P) @ ''filecrypt.co/Link/'' @ R)"
    by (simp only: append_Cons regex_exec.simps)
  finally show ?case .
qed

lemma typical_url_siteId:
  assumes "X \<noteq> []" and "list_all class_matches X"
  shows "regex_exec (''https://filecrypt.co/Container/'' @ X) = Some X"
    and "regex_exec (''https://filecrypt.co/Link/'' @ X) = Some X"
proof -
  from assms(2) have t: "takeWhile class_matches X = X"
    by (simp add: list_all_iff takeWhile_eq_all_conv)
  have "match_group X = (if X = [] then None else Some X)"
    unfolding match_group_def Let_def t ..
  with assms(1) have "match_group X = Some X" by simp
  then show "regex_exec (''https://filecrypt.co/Container/'' @ X) = Some X"
    and "regex_exec (''https://filecrypt.co/Link/'' @ X) = Some X"
    by (simp_all add: match_here_def char_matches_def Canonicalize_def)
qed

section \<open>The session store\<close>

lemma map_get_set: "map_get (map_set k v m) k' = (if k' = k then Some v else map_get m k')"
  by (induction m) (auto simp: map_get_def)

lemma map_get_delete: "map_get (map_delete k m) k' = (if k' = k then None else map_get m k')"
  by (induction m) (auto simp: map_get_def map_delete_def)

lemma map_get_None_iff: "map_get m k = None \<longleftrightarrow> k \<notin> fst ` set m"
  by (simp add: map_get_def map_of_eq_None_iff)

lemma map_set_absent: "map_get m k = None \<Longrightarrow> map_set k v m = m @ [(k, v)]"
  by (induction m) (auto simp: map_get_def split: if_splits)

lemma map_set_delete: "map_set k v (map_delete k m) = map_delete k m @ [(k, v)]"
  by (rule map_set_absent) (simp add: map_get_delete)

lemma map_set_same: "map_get m k = Some v \<Longrightarrow> map_set k v m = m"
  by (induction m) (auto simp: map_get_def split: if_splits)

lemma map_ok_set: "map_ok m \<Longrightarrow> map_ok (map_set k v m)"
proof (induction m)
  case Nil
  show ?case by (simp add: map_ok_def)
next
  case (Cons e es)
  have "fst ` set (map_set k v es) = insert k (fst ` set es)"
    by (induction es) auto
  with Cons show ?case by (auto simp: map_ok_def)
qed

lemma map_ok_delete: "map_ok m \<Longrightarrow> map_ok (map_delete k m)"
  by (simp add: map_ok_def map_delete_def distinct_map_filter)

lemma map_delete_absent: "k \<notin> fst ` set m \<Longrightarrow> map_delete k m = m"
  by (induction m) (auto simp: map_delete_def)

lemma create_session_ok:
  "launch_result e = Inr b \<Longrightarrow>
   create_session e fid w =
     (Inr (fresh_session e fid b),
      w\<lparr>calls := calls w @ [Launch],
        activeSessions := map_set fid (fresh_session e fid b) (activeSessions w)\<rparr>)"
  by (simp add: create_session_def fresh_session_def Let_def)

lemma create_session_fails:
  "launch_result e = Inl err \<Longrightarrow>
   create_session e fid w = (Inl err, w\<lparr>calls := calls w @ [Launch]\<rparr>)"
  by (simp add: create_session_def Let_def)

lemma create_session_returns:
  "create_session e fid w = (Inr s, w') \<Longrightarrow>
   \<exists>b. launch_result e = Inr b \<and> s = fresh_session e fid b"
  by (cases "launch_result e") (auto simp: create_session_ok create_session_fails)

lemma getFileCryptSession_live:
  "map_get (activeSessions w) fid = Some s \<Longrightarrow> now_check e - createdAt s < expiredThreshold \<Longrightarrow>
   getFileCryptSession e fid w = (Inr s, w)"
  by (simp add: getFileCryptSession_def map_has_def map_get_def expiredThreshold_def)

lemma getFileCryptSession_stale:
  "map_get (activeSessions w) fid = Some s \<Longrightarrow> \<not> now_check e - createdAt s < expiredThreshold \<Longrightarrow>
   getFileCryptSession e fid w =
     create_session e fid
       (w\<lparr>calls := calls w @ close_browser s,
          activeSessions := map_delete fid (activeSessions w)\<rparr>)"
  by (simp add: getFileCryptSession_def map_has_def map_get_def expiredThreshold_def)

lemma getFileCryptSession_absent:
  "map_get (activeSessions w) fid = None \<Longrightarrow>
   getFileCryptSession e fid w = create_session e fid w"
  by (simp add: getFileCryptSession_def map_has_def map_get_def)

lemma getFileCryptSession_returns:
  assumes "getFileCryptSession e fid w = (Inr s, w')"
  shows "(map_get (activeSessions w) fid = Some s \<and>
            now_check e - createdAt s < expiredThreshold \<and> w' = w) \<or>
         (\<exists>b. launch_result e = Inr b \<and> s = fresh_session e fid b)"
proof (cases "map_get (activeSessions w) fid")
  case None
  with assms show ?thesis
    by (auto simp: getFileCryptSession_absent dest: create_session_returns)
next
  case (Some old)
  show ?thesis
  proof (cases "now_check e - createdAt old < expiredThreshold")
    case True
    with Some assms show ?thesis by (simp add: getFileCryptSession_live)
  next
    case False
    with Some assms show ?thesis
      by (auto simp: getFileCryptSession_stale dest: create_session_returns)
  qed
qed

lemma getFileCryptSession_stored:
  assumes "getFileCryptSession e fid w = (Inr s, w')"
  shows "map_get (activeSessions w') fid = Some s"
proof (cases "map_get (activeSessions w) fid")
  case None
  with assms show ?thesis
    by (cases "launch_result e")
       (auto simp: getFileCryptSession_absent create_session_ok create_session_fails map_get_set)
next
  case (Some old)
  show ?thesis
  proof (cases "now_check e - createdAt old < expiredThreshold")
    case True
    with Some assms show ?thesis by (auto simp: getFileCryptSession_live)
  next
    case False
    with Some assms show ?thesis
      by (cases "launch_result e")
         (auto simp: getFileCryptSession_stale create_session_ok create_session_fails map_get_set)
  qed
qed

section \<open>The read-only accessor\<close>

lemma example_url_parses: "regex_exec example_url = Some ''ABC123''"
  by (simp add: example_url_def regex_defs)

lemma js_match_not_string: "(\<forall>u. v \<noteq> Str u) \<Longrightarrow> js_match v = Inl TypeError"
  by (cases v) simp_all

lemma js_prop_both:
  assumes "js_prop req_body k = Inr v"
  shows "\<exists>v'. js_prop req_body k' = Inr v'"
  using assms by (cases req_body) simp_all

lemma get_solved_links_stored:
  assumes "js_prop req_body ''filecryptUrl'' = Inr (Str u)"
    and "js_prop req_body ''sessionId'' = Inr sessionId"
    and "regex_exec u = Some fid"
    and "map_get (activeSessions w) fid = Some s"
  shows "get_solved_links w req_body =
           (if truthy sessionId \<and> Str (id_session s) \<noteq> sessionId
            then (Response 403 (Failure ''Invalid session ID''), w)
            else (Response 200 (LinksSuccess (map_values (solvedLinks s)) (id_session s)), w))"
  using assms by (simp add: get_solved_links_def map_has_def map_get_def)

lemma get_solved_links_absent:
  assumes "js_prop req_body ''filecryptUrl'' = Inr (Str u)"
    and "regex_exec u = Some fid"
    and "map_get (activeSessions w) fid = None"
  shows "get_solved_links w req_body = (Response 404 (Failure ''No active session found''), w)"
proof -
  obtain v where "js_prop req_body ''sessionId'' = Inr v"
    using js_prop_both [OF assms(1)] by blast
  with assms show ?thesis
    by (simp add: get_solved_links_def map_has_def map_get_def)
qed

lemma example_lookup: "map_get (activeSessions example_world) ''ABC123'' = Some example_session"
  by (simp add: map_get_def example_world_def)

lemma example_values: "map_values (solvedLinks example_session) = example_links"
  by (simp add: map_values_def example_session_def example_links_def)

lemma example_accessor_answer:
  "get_solved_links example_world (Obj [(''filecryptUrl'', Str example_url)]) =
     (Response 200 (LinksSuccess example_links ''0b6e6d0e''), example_world)"
proof -
  have "get_solved_links example_world (Obj [(''filecryptUrl'', Str example_url)]) =
     (Response 200 (LinksSuccess (map_values (solvedLinks example_session))
        (id_session example_session)), example_world)"
    by (simp add: get_solved_links_def example_url_parses map_has_def example_lookup
        [unfolded map_get_def] map_get_def)
  moreover have "id_session example_session = ''0b6e6d0e''"
    by (simp add: example_session_def)
  ultimately show ?thesis
    by (simp add: example_values)
qed

text \<open>
  C1, as stated, fails: the accessor never reads the clock. At time 5000000 the stored
  session of the example is 4999000 ms old, more than 30 minutes, and its links are
  returned with status 200.
\<close>

theorem get_solved_links_expired_counterexample:
  "map_get (activeSessions example_world) ''ABC123'' = Some example_session \<and>
   5000000 - createdAt example_session > expiredThreshold \<and>
   regex_exec example_url = Some ''ABC123'' \<and>
   get_solved_links example_world (Obj [(''filecryptUrl'', Str example_url)]) =
     (Response 200 (LinksSuccess example_links ''0b6e6d0e''), example_world)"
proof -
  have "5000000 - createdAt example_session > expiredThreshold"
    by (simp add: example_session_def expiredThreshold_def)
  with example_lookup example_url_parses example_accessor_answer show ?thesis
    by simp
qed

text \<open>
  C1, amended: for a request whose URL parses to a siteId, the accessor answers NotFound
  (404) exactly when no session is stored under that siteId. The age of a stored session
  is not looked at: whatever its \<open>createdAt\<close>, a stored session passes to the session-id
  check, and when that check does not reject, its links are returned.
\<close>

theorem get_solved_links_not_found_iff_absent:
  assumes "js_prop req_body ''filecryptUrl'' = Inr (Str u)"
    and "js_prop req_body ''sessionId'' = Inr sessionId"
    and "regex_exec u = Some fid"
  shows "(status (fst (get_solved_links w req_body)) = 404 \<longleftrightarrow>
            map_get (activeSessions w) fid = None) \<and>
         (map_get (activeSessions w) fid = None \<longrightarrow>
            get_solved_links w req_body =
              (Response 404 (Failure ''No active session found''), w)) \<and>
         (\<forall>s. map_get (activeSessions w) fid = Some s \<and>
               \<not> (truthy sessionId \<and> Str (id_session s) \<noteq> sessionId) \<longrightarrow>
            get_solved_links w req_body =
              (Response 200 (LinksSuccess (map_values (solvedLinks s)) (id_session s)), w))"
proof (cases "map_get (activeSessions w) fid")
  case None
  with get_solved_links_absent [OF assms(1) assms(3)] show ?thesis by simp
next
  case (Some s)
  with get_solved_links_stored [OF assms] show ?thesis by simp
qed

theorem get_solved_links_not_found_iff_absent_witness:
  "get_solved_links example_world
     (Obj [(''filecryptUrl'', Str example_url), (''sessionId'', Str ''0b6e6d0e'')]) =
     (Response 200 (LinksSuccess example_links ''0b6e6d0e''), example_world) \<and>
   get_solved_links empty_world
     (Obj [(''filecryptUrl'', Str example_url), (''sessionId'', Str ''0b6e6d0e'')]) =
     (Response 404 (Failure ''No active session found''), empty_world)"
proof -
  let ?b = "Obj [(''filecryptUrl'', Str example_url), (''sessionId'', Str ''0b6e6d0e'')]"
  have p: "js_prop ?b ''filecryptUrl'' = Inr (Str example_url)"
    and q: "js_prop ?b ''sessionId'' = Inr (Str ''0b6e6d0e'')"
    by simp_all
  have i: "id_session example_session = ''0b6e6d0e''"
    by (simp add: example_session_def)
  have e: "map_get (activeSessions empty_world) ''ABC123'' = None"
    by (simp add: map_get_def empty_world_def)
  from get_solved_links_not_found_iff_absent [OF p q example_url_parses, of example_world]
    get_solved_links_not_found_iff_absent [OF p q example_url_parses, of empty_world]
  show ?thesis
    by (simp add: example_lookup example_values i e)
qed

text \<open>
  C6: a URL string that does not match the pattern
  \<^verbatim>\<open>filecrypt.co/(Container/|Link/)<alphanumeric id>\<close> (case-insensitive) makes both
  \<^verbatim>\<open>solve-filecrypt\<close> and \<^verbatim>\<open>get-solved-links\<close> answer 400 with the invalid-URL error,
  and the state is the one before the request: no call to the browser library is issued
  and the session store is unchanged.
\<close>

theorem invalid_url_rejected:
  assumes "js_prop req_body ''filecryptUrl'' = Inr (Str u)"
    and "\<not> matches_pattern u"
  shows "solve_filecrypt e w req_body = (Response 400 (Failure ''Invalid FileCrypt URL''), w) \<and>
         get_solved_links w req_body = (Response 400 (Failure ''Invalid FileCrypt URL''), w)"
proof -
  from assms(2) have n: "regex_exec u = None"
    by (simp add: regex_exec_None_iff)
  obtain v where "js_prop req_body ''sessionId'' = Inr v"
    using js_prop_both [OF assms(1)] by blast
  with assms(1) n show ?thesis
    by (simp add: solve_filecrypt_def get_solved_links_def)
qed

theorem invalid_url_rejected_witness:
  "\<not> matches_pattern ''https://filecrypt.co/Folder/ABC123'' \<and>
   solve_filecrypt example_env example_world
     (Obj [(''filecryptUrl'', Str ''https://filecrypt.co/Folder/ABC123'')]) =
     (Response 400 (Failure ''Invalid FileCrypt URL''), example_world) \<and>
   get_solved_links example_world
     (Obj [(''filecryptUrl'', Str ''https://filecrypt.co/Folder/ABC123'')]) =
     (Response 400 (Failure ''Invalid FileCrypt URL''), example_world)"
proof -
  have n: "\<not> matches_pattern ''https://filecrypt.co/Folder/ABC123''"
    unfolding regex_exec_None_iff [symmetric] by (simp add: regex_defs)
  have p: "js_prop (Obj [(''filecryptUrl'', Str ''https://filecrypt.co/Folder/ABC123'')])
             ''filecryptUrl'' = Inr (Str ''https://filecrypt.co/Folder/ABC123'')"
    by simp
  from invalid_url_rejected [OF p n, of example_env example_world] n show ?thesis
    by simp
qed

text \<open>
  C7, as stated, fails: the empty string is a supplied \<^verbatim>\<open>sessionId\<close> that differs from
  the stored id, and the answer is 200 with the links, not 403.
\<close>

theorem mismatched_empty_sessionId_counterexample:
  "map_get (activeSessions example_world) ''ABC123'' = Some example_session \<and>
   Str (id_session example_session) \<noteq> Str '''' \<and>
   get_solved_links example_world
     (Obj [(''sessionId'', Str ''''), (''filecryptUrl'', Str example_url)]) =
     (Response 200 (LinksSuccess example_links ''0b6e6d0e''), example_world)"
proof -
  let ?b = "Obj [(''sessionId'', Str ''''), (''filecryptUrl'', Str example_url)]"
  have p: "js_prop ?b ''filecryptUrl'' = Inr (Str example_url)"
    and q: "js_prop ?b ''sessionId'' = Inr (Str '''')"
    by simp_all
  have i: "id_session example_session = ''0b6e6d0e''"
    by (simp add: example_session_def)
  from get_solved_links_stored [OF p q example_url_parses example_lookup] show ?thesis
    by (simp add: example_lookup example_values i)
qed

text \<open>
  C7, amended: for a request whose URL resolves to a stored session, a supplied
  \<^verbatim>\<open>sessionId\<close> that is truthy (a non-empty string, or any other value JavaScript takes
  for true) and differs from the stored id is answered 403 without the links; a
  \<^verbatim>\<open>sessionId\<close> equal to the stored id is answered 200 with all of the session's links,
  in insertion order, and the session id.
\<close>

theorem sessionId_check:
  assumes "js_prop req_body ''filecryptUrl'' = Inr (Str u)"
    and "js_prop req_body ''sessionId'' = Inr sessionId"
    and "regex_exec u = Some fid"
    and "map_get (activeSessions w) fid = Some s"
  shows "(truthy sessionId \<and> sessionId \<noteq> Str (id_session s) \<longrightarrow>
            get_solved_links w req_body = (Response 403 (Failure ''Invalid session ID''), w)) \<and>
         (sessionId = Str (id_session s) \<longrightarrow>
            get_solved_links w req_body =
              (Response 200 (LinksSuccess (map_values (solvedLinks s)) (id_session s)), w))"
  using get_solved_links_stored [OF assms] by auto

theorem sessionId_check_witness:
  "get_solved_links example_world
     (Obj [(''filecryptUrl'', Str example_url), (''sessionId'', Str ''5c1d2a9f'')]) =
     (Response 403 (Failure ''Invalid session ID''), example_world) \<and>
   get_solved_links example_world
     (Obj [(''filecryptUrl'', Str example_url), (''sessionId'', Str ''0b6e6d0e'')]) =
     (Response 200 (LinksSuccess example_links ''0b6e6d0e''), example_world)"
proof -
  let ?b1 = "Obj [(''filecryptUrl'', Str example_url), (''sessionId'', Str ''5c1d2a9f'')]"
  let ?b2 = "Obj [(''filecryptUrl'', Str example_url), (''sessionId'', Str ''0b6e6d0e'')]"
  have p1: "js_prop ?b1 ''filecryptUrl'' = Inr (Str example_url)"
    and q1: "js_prop ?b1 ''sessionId'' = Inr (Str ''5c1d2a9f'')"
    and p2: "js_prop ?b2 ''filecryptUrl'' = Inr (Str example_url)"
    and q2: "js_prop ?b2 ''sessionId'' = Inr (Str ''0b6e6d0e'')"
    by simp_all
  have i: "id_session example_session = ''0b6e6d0e''"
    by (simp add: example_session_def)
  from sessionId_check [OF p1 q1 example_url_parses example_lookup]
    sessionId_check [OF p2 q2 example_url_parses example_lookup]
  show ?thesis
    by (simp add: example_values i)
qed

text \<open>
  C9: a body without a string \<^verbatim>\<open>filecryptUrl\<close> (no body, no such field, or a field of
  another type) makes both endpoints answer 500 with the message of the thrown
  \<^verbatim>\<open>TypeError\<close>, not the 400 of a malformed URL string; the state is unchanged.
\<close>

theorem missing_url_is_500:
  assumes "\<forall>u. js_prop req_body ''filecryptUrl'' \<noteq> Inr (Str u)"
  shows "solve_filecrypt e w req_body = (Response 500 (Unexpected TypeError), w) \<and>
         get_solved_links w req_body = (Response 500 (Unexpected TypeError), w)"
proof (cases "js_prop req_body ''filecryptUrl''")
  case (Inl err)
  then have "err = TypeError" by (cases req_body) simp_all
  with Inl show ?thesis
    by (simp add: solve_filecrypt_def get_solved_links_def)
next
  case (Inr v)
  with assms have "\<forall>u. v \<noteq> Str u" by simp
  then have m: "js_match v = Inl TypeError" by (rule js_match_not_string)
  obtain v' where "js_prop req_body ''sessionId'' = Inr v'"
    using js_prop_both [OF Inr] by blast
  with Inr m show ?thesis
    by (simp add: solve_filecrypt_def get_solved_links_def)
qed

theorem missing_url_is_500_witness:
  "solve_filecrypt example_env example_world (Obj [(''sessionId'', Str ''0b6e6d0e'')]) =
     (Response 500 (Unexpected TypeError), example_world) \<and>
   get_solved_links example_world (Obj [(''filecryptUrl'', Num 42)]) =
     (Response 500 (Unexpected TypeError), example_world)"
proof -
  have a: "\<forall>u. js_prop (Obj [(''sessionId'', Str ''0b6e6d0e'')]) ''filecryptUrl'' \<noteq> Inr (Str u)"
    by simp
  have b: "\<forall>u. js_prop (Obj [(''filecryptUrl'', Num 42)]) ''filecryptUrl'' \<noteq> Inr (Str u)"
    by simp
  from missing_url_is_500 [OF a, of example_env example_world]
    missing_url_is_500 [OF b, of example_env example_world]
  show ?thesis by simp
qed

text \<open>
  C10: the empty string as \<^verbatim>\<open>sessionId\<close> is falsy, so the comparison with the stored id
  is skipped: for a siteId with a stored session the answer is 200 with the session's
  links, whatever the stored id is.
\<close>

theorem empty_sessionId_skips_check:
  assumes "js_prop req_body ''filecryptUrl'' = Inr (Str u)"
    and "js_prop req_body ''sessionId'' = Inr (Str [])"
    and "regex_exec u = Some fid"
    and "map_get (activeSessions w) fid = Some s"
  shows "get_solved_links w req_body =
           (Response 200 (LinksSuccess (map_values (solvedLinks s)) (id_session s)), w)"
  using get_solved_links_stored [OF assms] by simp

theorem empty_sessionId_skips_check_witness:
  "get_solved_links example_world
     (Obj [(''filecryptUrl'', Str example_url), (''sessionId'', Str [])]) =
   (Response 200 (LinksSuccess example_links ''0b6e6d0e''), example_world)"
proof -
  let ?b = "Obj [(''filecryptUrl'', Str example_url), (''sessionId'', Str [])]"
  have p: "js_prop ?b ''filecryptUrl'' = Inr (Str example_url)"
    and q: "js_prop ?b ''sessionId'' = Inr (Str [])"
    by simp_all
  have i: "id_session example_session = ''0b6e6d0e''"
    by (simp add: example_session_def)
  from empty_sessionId_skips_check [OF p q example_url_parses example_lookup] show ?thesis
    by (simp add: example_values i)
qed

section \<open>Creation and expiry in \<open>getFileCryptSession\<close>\<close>

lemma getFileCryptSession_stale_launch_fails:
  assumes "map_get (activeSessions w) fid = Some old"
    and "\<not> now_check e - createdAt old < expiredThreshold"
    and "launch_result e = Inl err"
  shows "getFileCryptSession e fid w =
           (Inl err, w\<lparr>calls := calls w @ close_browser old @ [Launch],
                        activeSessions := map_delete fid (activeSessions w)\<rparr>)"
  using assms by (simp add: getFileCryptSession_stale create_session_fails)

lemma getFileCryptSession_stale_launch_ok:
  assumes "map_get (activeSessions w) fid = Some old"
    and "\<not> now_check e - createdAt old < expiredThreshold"
    and "launch_result e = Inr nb"
  shows "getFileCryptSession e fid w =
           (Inr (fresh_session e fid nb),
            w\<lparr>calls := calls w @ close_browser old @ [Launch],
              activeSessions :=
                map_delete fid (activeSessions w) @ [(fid, fresh_session e fid nb)]\<rparr>)"
  using assms by (simp add: getFileCryptSession_stale create_session_ok map_set_delete)

text \<open>
  C2: \<open>getFileCryptSession\<close> never returns a session older than 30 minutes. A session it
  returns is either the stored one, less than 30 minutes old at the check and with the
  state untouched, or the one just created, with no links, which is then the stored one.
  When the stored session is older than the threshold (and the launch of the new browser
  succeeds), exactly one close call is issued for the old browser, the old entry is
  removed, and the fresh session is stored and returned.
\<close>

theorem getFileCryptSession_never_stale:
  "(\<forall>s w'. getFileCryptSession e fid w = (Inr s, w') \<longrightarrow>
      (map_get (activeSessions w) fid = Some s \<and>
         now_check e - createdAt s < expiredThreshold \<and> w' = w) \<or>
      (createdAt s = now_created e \<and> solvedLinks s = [] \<and>
         map_get (activeSessions w') fid = Some s)) \<and>
   (\<forall>old b nb. map_get (activeSessions w) fid = Some old \<and>
        now_check e - createdAt old > expiredThreshold \<and> browser old = Some b \<and>
        launch_result e = Inr nb \<longrightarrow>
      getFileCryptSession e fid w =
        (Inr (fresh_session e fid nb),
         w\<lparr>calls := calls w @ [BrowserClose b, Launch],
           activeSessions :=
             map_delete fid (activeSessions w) @ [(fid, fresh_session e fid nb)]\<rparr>) \<and>
      solvedLinks (fresh_session e fid nb) = [] \<and>
      createdAt (fresh_session e fid nb) = now_created e)"
proof (intro conjI allI impI)
  fix s w'
  assume g: "getFileCryptSession e fid w = (Inr s, w')"
  from getFileCryptSession_returns [OF g] getFileCryptSession_stored [OF g]
  show "(map_get (activeSessions w) fid = Some s \<and>
         now_check e - createdAt s < expiredThreshold \<and> w' = w) \<or>
        (createdAt s = now_created e \<and> solvedLinks s = [] \<and>
         map_get (activeSessions w') fid = Some s)"
    by (auto simp: fresh_session_def)
next
  fix old b nb
  assume a: "map_get (activeSessions w) fid = Some old \<and>
        now_check e - createdAt old > expiredThreshold \<and> browser old = Some b \<and>
        launch_result e = Inr nb"
  then have "\<not> now_check e - createdAt old < expiredThreshold" by simp
  with a show "getFileCryptSession e fid w =
        (Inr (fresh_session e fid nb),
         w\<lparr>calls := calls w @ [BrowserClose b, Launch],
           activeSessions :=
             map_delete fid (activeSessions w) @ [(fid, fresh_session e fid nb)]\<rparr>)"
    by (simp add: getFileCryptSession_stale_launch_ok close_browser_def)
next
  fix old b nb
  show "solvedLinks (fresh_session e fid nb) = []"
    by (simp add: fresh_session_def)
next
  fix old b nb
  show "createdAt (fresh_session e fid nb) = now_created e"
    by (simp add: fresh_session_def)
qed

theorem getFileCryptSession_never_stale_witness:
  "map_get (activeSessions example_world) ''ABC123'' = Some example_session \<and>
   now_check late_env - createdAt example_session > expiredThreshold \<and>
   getFileCryptSession late_env ''ABC123'' example_world =
     (Inr \<lparr>id_session = ''5c1d2a9f'', filecryptId = ''ABC123'', browser = Some 8,
           createdAt = 5000350, solvedLinks = []\<rparr>,
      \<lparr>activeSessions =
         [(''ABC123'',
           \<lparr>id_session = ''5c1d2a9f'', filecryptId = ''ABC123'', browser = Some 8,
             createdAt = 5000350, solvedLinks = []\<rparr>)],
       calls = [Launch, BrowserClose 7, Launch]\<rparr>)"
proof -
  have old: "now_check late_env - createdAt example_session > expiredThreshold"
    by (simp add: late_env_def example_env_def example_session_def expiredThreshold_def)
  have b: "browser example_session = Some 7"
    by (simp add: example_session_def)
  have l: "launch_result late_env = Inr 8"
    by (simp add: late_env_def example_env_def)
  have f: "fresh_session late_env ''ABC123'' 8 =
      \<lparr>id_session = ''5c1d2a9f'', filecryptId = ''ABC123'', browser = Some 8,
       createdAt = 5000350, solvedLinks = []\<rparr>"
    by (simp add: fresh_session_def late_env_def example_env_def)
  have d: "map_delete ''ABC123'' (activeSessions example_world) = []"
    by (simp add: map_delete_def example_world_def)
  have c: "calls example_world = [Launch]"
    by (simp add: example_world_def)
  from getFileCryptSession_never_stale [of late_env "''ABC123''" example_world]
    example_lookup old b l
  have "getFileCryptSession late_env ''ABC123'' example_world =
     (Inr (fresh_session late_env ''ABC123'' 8),
      example_world\<lparr>calls := calls example_world @ [BrowserClose 7, Launch],
        activeSessions := map_delete ''ABC123'' (activeSessions example_world) @
          [(''ABC123'', fresh_session late_env ''ABC123'' 8)]\<rparr>)"
    by blast
  then have "getFileCryptSession late_env ''ABC123'' example_world =
     (Inr \<lparr>id_session = ''5c1d2a9f'', filecryptId = ''ABC123'', browser = Some 8,
           createdAt = 5000350, solvedLinks = []\<rparr>,
      \<lparr>activeSessions =
         [(''ABC123'',
           \<lparr>id_session = ''5c1d2a9f'', filecryptId = ''ABC123'', browser = Some 8,
             createdAt = 5000350, solvedLinks = []\<rparr>)],
       calls = [Launch, BrowserClose 7, Launch]\<rparr>)"
    unfolding f d c by (simp add: example_world_def)
  with example_lookup old show ?thesis by simp
qed

section \<open>The sweep\<close>

lemma filter_map_delete:
  "filter P (map_delete k m) = filter (\<lambda>e. fst e \<noteq> k \<and> P e) m"
  by (induction m) (auto simp: map_delete_def)

lemma cleanup_loop_eq:
  "cleanup_loop now es w n =
     (w\<lparr>calls := calls w @ closes_of (filter (expired now) es),
        activeSessions :=
          filter (\<lambda>e. fst e \<notin> fst ` set (filter (expired now) es)) (activeSessions w)\<rparr>,
      n + length (filter (expired now) es))"
proof (induction es arbitrary: w n)
  case Nil
  show ?case by (simp add: closes_of_def)
next
  case (Cons entry es)
  obtain fid s where entry: "entry = (fid, s)" by (cases entry)
  show ?case
  proof (cases "expired now entry")
    case True
    then have "now - createdAt s > expiredThreshold" by (simp add: expired_def entry)
    then show ?thesis
      using True
      by (simp add: entry Cons.IH closes_of_def map_delete_def conj_commute)
  next
    case False
    then have "\<not> now - createdAt s > expiredThreshold" by (simp add: expired_def entry)
    then show ?thesis
      using False by (simp add: entry Cons.IH)
  qed
qed

lemma filter_keys_of_expired:
  assumes "map_ok m"
  shows "filter (\<lambda>e. fst e \<notin> fst ` set (filter P m)) m = filter (\<lambda>e. \<not> P e) m"
proof (rule filter_cong [OF refl])
  fix e assume e: "e \<in> set m"
  have "fst e \<in> fst ` set (filter P m) \<longleftrightarrow> P e"
  proof
    assume "fst e \<in> fst ` set (filter P m)"
    then obtain e' where e': "e' \<in> set m" "P e'" "fst e' = fst e" by auto
    from assms have "inj_on fst (set m)" by (simp add: map_ok_def distinct_map)
    with e e' have "e' = e" by (auto dest: inj_onD)
    with e' show "P e" by simp
  next
    assume "P e"
    with e show "fst e \<in> fst ` set (filter P m)" by auto
  qed
  then show "(fst e \<notin> fst ` set (filter P m)) = (\<not> P e)" by simp
qed

lemma cleanup_sessions_eq:
  assumes "map_ok (activeSessions w)"
  shows "cleanup_sessions now w =
     (Response 200
        (CleanupSuccess (length (filter (expired now) (activeSessions w)))
           (length (filter (\<lambda>e. \<not> expired now e) (activeSessions w)))),
      swept now w)"
  unfolding cleanup_sessions_def cleanup_loop_eq filter_keys_of_expired [OF assms] swept_def
  by (simp add: map_size_def)

lemma swept_store: "activeSessions (swept now w) = filter (\<lambda>e. \<not> expired now e) (activeSessions w)"
  by (simp add: swept_def)

lemma swept_twice: "swept now (swept now w) = swept now w"
  by (simp add: swept_def closes_of_def)

text \<open>
  C3: on a store with unique keys, the sweep at time \<open>now\<close> removes exactly the entries
  whose session is older than the threshold: what remains is the list of the other
  entries, each as it was (its links included) and in the same order. The response
  carries the number of removed entries and the size of what remains, one close call is
  issued per removed session that has a browser, and a second sweep at the same \<open>now\<close>
  removes nothing and changes nothing.
\<close>

theorem sweep_removes_exactly_expired:
  assumes "map_ok (activeSessions w)"
  shows "cleanup_sessions now w =
           (Response 200
              (CleanupSuccess (length (filter (expired now) (activeSessions w)))
                 (length (filter (\<lambda>entry. \<not> expired now entry) (activeSessions w)))),
            swept now w) \<and>
         activeSessions (swept now w) =
           filter (\<lambda>entry. \<not> expired now entry) (activeSessions w) \<and>
         calls (swept now w) = calls w @ closes_of (filter (expired now) (activeSessions w)) \<and>
         cleanup_sessions now (swept now w) =
           (Response 200
              (CleanupSuccess 0
                 (length (filter (\<lambda>entry. \<not> expired now entry) (activeSessions w)))),
            swept now w)"
proof -
  have ok: "map_ok (activeSessions (swept now w))"
    using assms by (simp add: swept_store map_ok_def distinct_map_filter)
  have "cleanup_sessions now (swept now w) =
           (Response 200
              (CleanupSuccess 0
                 (length (filter (\<lambda>entry. \<not> expired now entry) (activeSessions w)))),
            swept now w)"
    unfolding cleanup_sessions_eq [OF ok] swept_twice
    by (simp add: swept_store)
  then show ?thesis
    by (simp add: cleanup_sessions_eq [OF assms] swept_def)
qed

theorem sweep_removes_exactly_expired_witness:
  "map_ok (activeSessions two_sessions_world) \<and>
   cleanup_sessions 5000000 two_sessions_world =
     (Response 200 (CleanupSuccess 1 1),
      \<lparr>activeSessions = [(''XYZ789'', young_session)],
       calls = [Launch, Launch, BrowserClose 7]\<rparr>) \<and>
   cleanup_sessions 5000000
     \<lparr>activeSessions = [(''XYZ789'', young_session)],
      calls = [Launch, Launch, BrowserClose 7]\<rparr> =
     (Response 200 (CleanupSuccess 0 1),
      \<lparr>activeSessions = [(''XYZ789'', young_session)],
       calls = [Launch, Launch, BrowserClose 7]\<rparr>)"
proof -
  have ok: "map_ok (activeSessions two_sessions_world)"
    by (simp add: map_ok_def two_sessions_world_def)
  have x: "expired 5000000 (''ABC123'', example_session)"
    and y: "\<not> expired 5000000 (''XYZ789'', young_session)"
    by (simp_all add: expired_def example_session_def young_session_def expiredThreshold_def)
  have s: "swept 5000000 two_sessions_world =
      \<lparr>activeSessions = [(''XYZ789'', young_session)],
       calls = [Launch, Launch, BrowserClose 7]\<rparr>"
    using x y
    by (simp add: swept_def two_sessions_world_def closes_of_def close_browser_def)
       (simp add: example_session_def)
  have a: "activeSessions two_sessions_world =
      [(''ABC123'', example_session), (''XYZ789'', young_session)]"
    by (simp add: two_sessions_world_def)
  have n1: "length (filter (expired 5000000) (activeSessions two_sessions_world)) = 1"
    and n2: "length (filter (\<lambda>entry. \<not> expired 5000000 entry)
               (activeSessions two_sessions_world)) = 1"
    using x y by (simp_all add: a)
  from sweep_removes_exactly_expired [OF ok, of 5000000]
  have "cleanup_sessions 5000000 two_sessions_world =
          (Response 200 (CleanupSuccess 1 1), swept 5000000 two_sessions_world)"
    and "cleanup_sessions 5000000 (swept 5000000 two_sessions_world) =
          (Response 200 (CleanupSuccess 0 1), swept 5000000 two_sessions_world)"
    unfolding n1 n2 by blast+
  then show ?thesis
    unfolding s using ok by blast
qed

section \<open>The extraction workflow\<close>

lemma find_append:
  "find P (xs @ ys) = (case find P xs of Some x \<Rightarrow> Some x | None \<Rightarrow> find P ys)"
  by (induction xs) auto

lemma fold_map_set_get:
  "map_get (fold (\<lambda>l m. map_set (url l) l m) ls m) u =
     (case find (\<lambda>l. url l = u) (rev ls) of Some l \<Rightarrow> Some l | None \<Rightarrow> map_get m u)"
proof (induction ls arbitrary: m)
  case Nil
  show ?case by simp
next
  case (Cons l ls)
  show ?case
    by (simp add: Cons.IH find_append map_get_set split: option.splits)
qed

lemma store_links_get:
  "map_get (solvedLinks (store_links ls s)) u =
     (case find (\<lambda>l. url l = u) (rev ls) of Some l \<Rightarrow> Some l | None \<Rightarrow> map_get (solvedLinks s) u)"
  by (simp add: store_links_def fold_map_set_get)

lemma store_links_fields:
  "id_session (store_links ls s) = id_session s"
  "createdAt (store_links ls s) = createdAt s"
  "browser (store_links ls s) = browser s"
  "filecryptId (store_links ls s) = filecryptId s"
  by (simp_all add: store_links_def)

lemma links_catch_not_success:
  "links_catch e s page w \<noteq> (Response st (SolveSuccess ls sid), w')"
  by (simp add: links_catch_def Let_def split: option.splits)

lemma extract_links_success:
  assumes "extract_links e fid s page w = (Response st (SolveSuccess ls sid), w')"
  shows "links_wait_result e = None \<and> evaluate_result e = Inr ls \<and> close_result e = None \<and>
         st = 200 \<and> sid = id_session s \<and>
         w' = w\<lparr>activeSessions := map_set fid (store_links ls s) (activeSessions w),
                calls := calls w @ [WaitForSelector page GofileAnchor, Evaluate page,
                                    PageClose page]\<rparr>"
  using assms
  by (auto simp: extract_links_def Let_def links_catch_not_success
      split: option.splits sum.splits)

lemma open_page_success:
  assumes "open_page e u fid s w = (Response st (SolveSuccess ls sid), w')"
  shows "\<exists>b page. browser s = Some b \<and> newPage_result e = Inr page \<and> goto_result e = None \<and>
         links_wait_result e = None \<and> evaluate_result e = Inr ls \<and> close_result e = None \<and>
         st = 200 \<and> sid = id_session s \<and>
         w' = w\<lparr>activeSessions := map_set fid (store_links ls s) (activeSessions w),
                calls := calls w @ [NewPage b, Goto page u, WaitForSelector page CaptchaFrame,
                   WaitForSelector page GofileAnchor, Evaluate page, PageClose page]\<rparr>"
  using assms
  by (auto simp: open_page_def Let_def split: option.splits sum.splits
      dest!: extract_links_success)

lemma js_match_Inr: "js_match v = Inr r \<Longrightarrow> \<exists>u. v = Str u \<and> r = regex_exec u"
  by (cases v) simp_all

lemma solve_filecrypt_success:
  assumes "solve_filecrypt e w req_body = (Response st (SolveSuccess ls sid), w')"
  shows "\<exists>u fid s w1 b page.
           js_prop req_body ''filecryptUrl'' = Inr (Str u) \<and> regex_exec u = Some fid \<and>
           getFileCryptSession e fid w = (Inr s, w1) \<and>
           browser s = Some b \<and> newPage_result e = Inr page \<and> goto_result e = None \<and>
           links_wait_result e = None \<and> evaluate_result e = Inr ls \<and> close_result e = None \<and>
           st = 200 \<and> sid = id_session s \<and>
           w' = w1\<lparr>activeSessions := map_set fid (store_links ls s) (activeSessions w1),
                calls := calls w1 @ [NewPage b, Goto page u, WaitForSelector page CaptchaFrame,
                   WaitForSelector page GofileAnchor, Evaluate page, PageClose page]\<rparr>"
proof -
  from assms obtain v where v: "js_prop req_body ''filecryptUrl'' = Inr v"
    by (auto simp: solve_filecrypt_def split: sum.splits)
  with assms obtain r where r: "js_match v = Inr r"
    by (auto simp: solve_filecrypt_def split: sum.splits)
  then obtain u where u: "v = Str u" "r = regex_exec u"
    using js_match_Inr by blast
  with assms v obtain fid where fid: "regex_exec u = Some fid"
    by (auto simp: solve_filecrypt_def split: option.splits)
  with assms v u obtain s w1 where s: "getFileCryptSession e fid w = (Inr s, w1)"
    by (auto simp: solve_filecrypt_def split: sum.splits prod.splits)
  with assms v u fid have "open_page e u fid s w1 = (Response st (SolveSuccess ls sid), w')"
    by (simp add: solve_filecrypt_def)
  from open_page_success [OF this] v u fid s show ?thesis by blast
qed

lemma get_solved_links_store_only:
  assumes "activeSessions w' = activeSessions w"
  shows "fst (get_solved_links w' q) = fst (get_solved_links w q)"
  using assms
  by (simp add: get_solved_links_def split: sum.splits option.splits)

lemma extract_links_timeout:
  assumes "links_wait_result e = Some err"
  shows "extract_links e fid s page w =
           ((case close_result_catch e of
               None \<Rightarrow> Response 200 (SolveTimedOut (id_session s))
             | Some err' \<Rightarrow> Response 500 (Unexpected err')),
            w\<lparr>calls := calls w @ [WaitForSelector page GofileAnchor, PageClose page]\<rparr>)"
  using assms
  by (cases "close_result_catch e") (simp_all add: extract_links_def links_catch_def Let_def)

lemma open_page_timeout:
  assumes "browser s = Some b"
    and "newPage_result e = Inr page"
    and "goto_result e = None"
    and "links_wait_result e = Some err"
  shows "open_page e u fid s w =
           ((case close_result_catch e of
               None \<Rightarrow> Response 200 (SolveTimedOut (id_session s))
             | Some err' \<Rightarrow> Response 500 (Unexpected err')),
            w\<lparr>calls := calls w @ [NewPage b, Goto page u, WaitForSelector page CaptchaFrame,
                   WaitForSelector page GofileAnchor, PageClose page]\<rparr>)"
  using assms(1-3)
  by (simp add: open_page_def Let_def extract_links_timeout [OF assms(4)])

lemma solve_filecrypt_session:
  assumes "js_prop req_body ''filecryptUrl'' = Inr (Str u)"
    and "regex_exec u = Some fid"
    and "getFileCryptSession e fid w = (Inr s, w1)"
  shows "solve_filecrypt e w req_body = open_page e u fid s w1"
  using assms by (simp add: solve_filecrypt_def)

lemma solve_filecrypt_timeout:
  assumes "js_prop req_body ''filecryptUrl'' = Inr (Str u)"
    and "regex_exec u = Some fid"
    and "getFileCryptSession e fid w = (Inr s, w1)"
    and "browser s = Some b"
    and "newPage_result e = Inr page"
    and "goto_result e = None"
    and "links_wait_result e = Some err"
  shows "solve_filecrypt e w req_body =
           ((case close_result_catch e of
               None \<Rightarrow> Response 200 (SolveTimedOut (id_session s))
             | Some err' \<Rightarrow> Response 500 (Unexpected err')),
            w1\<lparr>calls := calls w1 @ [NewPage b, Goto page u, WaitForSelector page CaptchaFrame,
                   WaitForSelector page GofileAnchor, PageClose page]\<rparr>)"
  unfolding solve_filecrypt_session [OF assms(1-3)]
  by (rule open_page_timeout [OF assms(4-7)])

lemma links_catch_effect:
  "activeSessions (snd (links_catch e s page w)) = activeSessions w \<and>
   (\<forall>i. response_sessionId (fst (links_catch e s page w)) = Some i \<longrightarrow> i = id_session s)"
  by (cases "close_result_catch e") (simp_all add: links_catch_def Let_def)

lemma extract_links_effect:
  "(activeSessions (snd (extract_links e fid s page w)) = activeSessions w \<or>
    (\<exists>ls. activeSessions (snd (extract_links e fid s page w)) =
            map_set fid (store_links ls s) (activeSessions w))) \<and>
   (\<forall>i. response_sessionId (fst (extract_links e fid s page w)) = Some i \<longrightarrow> i = id_session s)"
proof (cases "links_wait_result e")
  case (Some err)
  then show ?thesis
    using links_catch_effect [of e s page "w\<lparr>calls := calls w @ [WaitForSelector page GofileAnchor]\<rparr>"]
    by (simp add: extract_links_def Let_def)
next
  case None
  note wait = None
  show ?thesis
  proof (cases "evaluate_result e")
    case (Inl err)
    then show ?thesis
      using wait links_catch_effect [of e s page
          "w\<lparr>calls := calls w @ [WaitForSelector page GofileAnchor, Evaluate page]\<rparr>"]
      by (simp add: extract_links_def Let_def)
  next
    case (Inr ls)
    show ?thesis
    proof (cases "close_result e")
      case None
      with wait Inr show ?thesis
        by (auto simp: extract_links_def Let_def)
    next
      case (Some err)
      with wait Inr show ?thesis
        using links_catch_effect [of e "store_links ls s" page
          "w\<lparr>activeSessions := map_set fid (store_links ls s) (activeSessions w),
             calls := calls w @ [WaitForSelector page GofileAnchor, Evaluate page,
                                 PageClose page]\<rparr>"]
        by (auto simp: extract_links_def Let_def store_links_fields)
    qed
  qed
qed

lemma open_page_effect:
  "(activeSessions (snd (open_page e u fid s w)) = activeSessions w \<or>
    (\<exists>ls. activeSessions (snd (open_page e u fid s w)) =
            map_set fid (store_links ls s) (activeSessions w))) \<and>
   (\<forall>i. response_sessionId (fst (open_page e u fid s w)) = Some i \<longrightarrow> i = id_session s)"
proof (cases "browser s")
  case None
  then show ?thesis by (simp add: open_page_def)
next
  case (Some b)
  note br = Some
  show ?thesis
  proof (cases "newPage_result e")
    case (Inl err)
    with br show ?thesis by (simp add: open_page_def Let_def)
  next
    case (Inr page)
    show ?thesis
    proof (cases "goto_result e")
      case (Some err)
      with br Inr show ?thesis by (simp add: open_page_def Let_def)
    next
      case None
      with br Inr show ?thesis
        using extract_links_effect [of e fid s page
            "w\<lparr>calls := calls w @ [NewPage b, Goto page u, WaitForSelector page CaptchaFrame]\<rparr>"]
        by (simp add: open_page_def Let_def)
    qed
  qed
qed

lemma solve_filecrypt_keeps_session:
  assumes "js_prop req_body ''filecryptUrl'' = Inr (Str u)"
    and "regex_exec u = Some fid"
    and "getFileCryptSession e fid w = (Inr s, w0)"
    and "solve_filecrypt e w req_body = (r, w1)"
  shows "(\<exists>s1. map_get (activeSessions w1) fid = Some s1 \<and>
              id_session s1 = id_session s \<and> createdAt s1 = createdAt s \<and>
              browser s1 = browser s) \<and>
         (\<forall>i. response_sessionId r = Some i \<longrightarrow> i = id_session s)"
proof -
  from assms have o: "open_page e u fid s w0 = (r, w1)"
    by (simp add: solve_filecrypt_session)
  from getFileCryptSession_stored [OF assms(3)]
  have st: "map_get (activeSessions w0) fid = Some s" .
  from open_page_effect [of e u fid s w0] o
  have a: "activeSessions w1 = activeSessions w0 \<or>
       (\<exists>ls. activeSessions w1 = map_set fid (store_links ls s) (activeSessions w0))"
    and b: "\<forall>i. response_sessionId r = Some i \<longrightarrow> i = id_session s"
    by simp_all
  from a st have "\<exists>s1. map_get (activeSessions w1) fid = Some s1 \<and>
              id_session s1 = id_session s \<and> createdAt s1 = createdAt s \<and>
              browser s1 = browser s"
    by (auto simp: map_get_set store_links_fields)
  with b show ?thesis by blast
qed

lemma example_container_body:
  "js_prop container_body ''filecryptUrl'' = Inr (Str ''https://filecrypt.co/Container/ABC123'')"
  by (simp add: container_body_def)

lemma example_link_body:
  "js_prop link_body ''filecryptUrl'' = Inr (Str ''https://filecrypt.co/Link/ABC123'')"
  by (simp add: link_body_def)

lemma container_url_parses: "regex_exec ''https://filecrypt.co/Container/ABC123'' = Some ''ABC123''"
  using example_url_parses by (simp add: example_url_def)

lemma example_session_live:
  "getFileCryptSession example_env ''ABC123'' example_world = (Inr example_session, example_world)"
proof -
  have "now_check example_env - createdAt example_session < expiredThreshold"
    by (simp add: example_env_def example_session_def expiredThreshold_def)
  from getFileCryptSession_live [OF example_lookup this] show ?thesis .
qed

lemma solve_filecrypt_example_success:
  "solve_filecrypt example_env example_world container_body =
     (Response 200
        (SolveSuccess
           [\<lparr>url = ''https://gofile.io/d/b2'', text_content = ''second''\<rparr>,
            \<lparr>url = ''https://gofile.io/d/c3'', text_content = ''part 3''\<rparr>]
           ''0b6e6d0e''),
      merged_world)"
proof -
  have "open_page example_env ''https://filecrypt.co/Container/ABC123'' ''ABC123''
          example_session example_world =
        (Response 200
           (SolveSuccess
              [\<lparr>url = ''https://gofile.io/d/b2'', text_content = ''second''\<rparr>,
               \<lparr>url = ''https://gofile.io/d/c3'', text_content = ''part 3''\<rparr>]
              (id_session example_session)),
         example_world\<lparr>activeSessions :=
             map_set ''ABC123''
               (store_links
                  [\<lparr>url = ''https://gofile.io/d/b2'', text_content = ''second''\<rparr>,
                   \<lparr>url = ''https://gofile.io/d/c3'', text_content = ''part 3''\<rparr>]
                  example_session)
               (activeSessions example_world),
           calls := calls example_world @
             [NewPage 7, Goto 1 ''https://filecrypt.co/Container/ABC123'',
              WaitForSelector 1 CaptchaFrame, WaitForSelector 1 GofileAnchor,
              Evaluate 1, PageClose 1]\<rparr>)"
    by (simp add: open_page_def extract_links_def Let_def example_env_def example_session_def)
  then show ?thesis
    unfolding solve_filecrypt_session
      [OF example_container_body container_url_parses example_session_live]
    by (simp add: example_world_def store_links_def merged_world_def)
       (simp add: example_session_def)
qed

lemma solve_filecrypt_first_request:
  "getFileCryptSession example_env ''ABC123'' empty_world =
     (Inr (fresh_session example_env ''ABC123'' 8),
      \<lparr>activeSessions = [(''ABC123'', fresh_session example_env ''ABC123'' 8)],
       calls = [Launch]\<rparr>) \<and>
   solve_filecrypt example_env empty_world container_body =
     (Response 200
        (SolveSuccess
           [\<lparr>url = ''https://gofile.io/d/b2'', text_content = ''second''\<rparr>,
            \<lparr>url = ''https://gofile.io/d/c3'', text_content = ''part 3''\<rparr>]
           ''5c1d2a9f''),
      after_first)"
proof -
  have n: "map_get (activeSessions empty_world) ''ABC123'' = None"
    by (simp add: map_get_def empty_world_def)
  have l: "launch_result example_env = Inr 8"
    by (simp add: example_env_def)
  have g: "getFileCryptSession example_env ''ABC123'' empty_world =
     (Inr (fresh_session example_env ''ABC123'' 8),
      \<lparr>activeSessions = [(''ABC123'', fresh_session example_env ''ABC123'' 8)],
       calls = [Launch]\<rparr>)"
    unfolding getFileCryptSession_absent [OF n] create_session_ok [OF l]
    by (simp add: empty_world_def)
  have "open_page example_env ''https://filecrypt.co/Container/ABC123'' ''ABC123''
          (fresh_session example_env ''ABC123'' 8)
          \<lparr>activeSessions = [(''ABC123'', fresh_session example_env ''ABC123'' 8)],
           calls = [Launch]\<rparr> =
     (Response 200
        (SolveSuccess
           [\<lparr>url = ''https://gofile.io/d/b2'', text_content = ''second''\<rparr>,
            \<lparr>url = ''https://gofile.io/d/c3'', text_content = ''part 3''\<rparr>]
           ''5c1d2a9f''),
      after_first)"
    by (simp add: open_page_def extract_links_def Let_def example_env_def fresh_session_def
        store_links_def after_first_def first_session_def)
  with g show ?thesis
    unfolding solve_filecrypt_session [OF example_container_body container_url_parses g]
    by simp
qed

lemma extract_links_resolves:
  assumes "links_wait_result e = None"
    and "evaluate_result e = Inr ls"
    and "close_result e = None"
  shows "extract_links e fid s page w =
           (Response 200 (SolveSuccess ls (id_session s)),
            w\<lparr>activeSessions := map_set fid (store_links ls s) (activeSessions w),
              calls := calls w @ [WaitForSelector page GofileAnchor, Evaluate page,
                                  PageClose page]\<rparr>)"
  using assms by (simp add: extract_links_def Let_def)

lemma open_page_resolves:
  assumes "browser s = Some b"
    and "newPage_result e = Inr page"
    and "goto_result e = None"
    and "links_wait_result e = None"
    and "evaluate_result e = Inr ls"
    and "close_result e = None"
  shows "open_page e u fid s w =
           (Response 200 (SolveSuccess ls (id_session s)),
            w\<lparr>activeSessions := map_set fid (store_links ls s) (activeSessions w),
              calls := calls w @ [NewPage b, Goto page u, WaitForSelector page CaptchaFrame,
                 WaitForSelector page GofileAnchor, Evaluate page, PageClose page]\<rparr>)"
  using assms(1-3)
  by (simp add: open_page_def Let_def extract_links_resolves [OF assms(4-6)])

lemma solve_filecrypt_resolves:
  assumes "js_prop req_body ''filecryptUrl'' = Inr (Str u)"
    and "regex_exec u = Some fid"
    and "getFileCryptSession e fid w = (Inr s, w1)"
    and "browser s = Some b"
    and "newPage_result e = Inr page"
    and "goto_result e = None"
    and "links_wait_result e = None"
    and "evaluate_result e = Inr ls"
    and "close_result e = None"
  shows "solve_filecrypt e w req_body =
           (Response 200 (SolveSuccess ls (id_session s)),
            w1\<lparr>activeSessions := map_set fid (store_links ls s) (activeSessions w1),
               calls := calls w1 @ [NewPage b, Goto page u, WaitForSelector page CaptchaFrame,
                 WaitForSelector page GofileAnchor, Evaluate page, PageClose page]\<rparr>)"
  unfolding solve_filecrypt_session [OF assms(1-3)]
  by (rule open_page_resolves [OF assms(4-9)])

text \<open>
  C8: a run in which the session is obtained and the page calls resolve up to the close
  (whatever the probe for the CAPTCHA frame gave) answers 200 with success, with exactly
  the list that \<^verbatim>\<open>page.evaluate\<close> returned in this run and the id of the session, and
  leaves in the store, under the same key, that session with the extracted records merged
  in: a url extracted in this run maps to the last record extracted for it, every other
  url maps to what it mapped to before. Conversely, every run that answers with success
  is such a run: its list is the extracted list of this run and its store is the merged
  one.
\<close>

theorem successful_extraction_merges:
  "(\<forall>u fid s w1 b page ls.
      js_prop req_body ''filecryptUrl'' = Inr (Str u) \<and> regex_exec u = Some fid \<and>
      getFileCryptSession e fid w = (Inr s, w1) \<and> browser s = Some b \<and>
      newPage_result e = Inr page \<and> goto_result e = None \<and>
      links_wait_result e = None \<and> evaluate_result e = Inr ls \<and> close_result e = None \<longrightarrow>
      solve_filecrypt e w req_body =
        (Response 200 (SolveSuccess ls (id_session s)),
         w1\<lparr>activeSessions := map_set fid (store_links ls s) (activeSessions w1),
            calls := calls w1 @ [NewPage b, Goto page u, WaitForSelector page CaptchaFrame,
              WaitForSelector page GofileAnchor, Evaluate page, PageClose page]\<rparr>) \<and>
      map_get (activeSessions w1) fid = Some s \<and>
      map_get (activeSessions (snd (solve_filecrypt e w req_body))) fid =
        Some (store_links ls s) \<and>
      (\<forall>x. map_get (solvedLinks (store_links ls s)) x =
             (case find (\<lambda>l. url l = x) (rev ls) of
                Some l \<Rightarrow> Some l
              | None \<Rightarrow> map_get (solvedLinks s) x))) \<and>
   (\<forall>st ls sid w'.
      solve_filecrypt e w req_body = (Response st (SolveSuccess ls sid), w') \<longrightarrow>
      (\<exists>u fid s w1.
           js_prop req_body ''filecryptUrl'' = Inr (Str u) \<and> regex_exec u = Some fid \<and>
           getFileCryptSession e fid w = (Inr s, w1) \<and>
           map_get (activeSessions w1) fid = Some s \<and>
           st = 200 \<and> evaluate_result e = Inr ls \<and> sid = id_session s \<and>
           activeSessions w' = map_set fid (store_links ls s) (activeSessions w1) \<and>
           map_get (activeSessions w') fid = Some (store_links ls s) \<and>
           (\<forall>x. map_get (solvedLinks (store_links ls s)) x =
                  (case find (\<lambda>l. url l = x) (rev ls) of
                     Some l \<Rightarrow> Some l
                   | None \<Rightarrow> map_get (solvedLinks s) x))))"
proof (intro conjI allI impI)
  fix u fid s w1 b page ls
  assume h: "js_prop req_body ''filecryptUrl'' = Inr (Str u) \<and> regex_exec u = Some fid \<and>
      getFileCryptSession e fid w = (Inr s, w1) \<and> browser s = Some b \<and>
      newPage_result e = Inr page \<and> goto_result e = None \<and>
      links_wait_result e = None \<and> evaluate_result e = Inr ls \<and> close_result e = None"
  then have r: "solve_filecrypt e w req_body =
        (Response 200 (SolveSuccess ls (id_session s)),
         w1\<lparr>activeSessions := map_set fid (store_links ls s) (activeSessions w1),
            calls := calls w1 @ [NewPage b, Goto page u, WaitForSelector page CaptchaFrame,
              WaitForSelector page GofileAnchor, Evaluate page, PageClose page]\<rparr>)"
    by (intro solve_filecrypt_resolves) simp_all
  from h have g: "getFileCryptSession e fid w = (Inr s, w1)" by simp
  show "solve_filecrypt e w req_body =
        (Response 200 (SolveSuccess ls (id_session s)),
         w1\<lparr>activeSessions := map_set fid (store_links ls s) (activeSessions w1),
            calls := calls w1 @ [NewPage b, Goto page u, WaitForSelector page CaptchaFrame,
              WaitForSelector page GofileAnchor, Evaluate page, PageClose page]\<rparr>)"
    by (rule r)
  show "map_get (activeSessions w1) fid = Some s"
    by (rule getFileCryptSession_stored [OF g])
  show "map_get (activeSessions (snd (solve_filecrypt e w req_body))) fid =
        Some (store_links ls s)"
    unfolding r by (simp add: map_get_set)
  show "map_get (solvedLinks (store_links ls s)) x =
             (case find (\<lambda>l. url l = x) (rev ls) of
                Some l \<Rightarrow> Some l
              | None \<Rightarrow> map_get (solvedLinks s) x)" for x
    by (rule store_links_get)
next
  fix st ls sid w'
  assume a: "solve_filecrypt e w req_body = (Response st (SolveSuccess ls sid), w')"
  from solve_filecrypt_success [OF a] obtain u fid s w1 b page where
    h: "js_prop req_body ''filecryptUrl'' = Inr (Str u)" "regex_exec u = Some fid"
       "getFileCryptSession e fid w = (Inr s, w1)" "st = 200" "evaluate_result e = Inr ls"
       "sid = id_session s"
       "w' = w1\<lparr>activeSessions := map_set fid (store_links ls s) (activeSessions w1),
                calls := calls w1 @ [NewPage b, Goto page u, WaitForSelector page CaptchaFrame,
                   WaitForSelector page GofileAnchor, Evaluate page, PageClose page]\<rparr>"
    by blast
  from h(7) have s: "activeSessions w' = map_set fid (store_links ls s) (activeSessions w1)"
    by simp
  then have "map_get (activeSessions w') fid = Some (store_links ls s)"
    by (simp add: map_get_set)
  with h s getFileCryptSession_stored [OF h(3)]
  show "\<exists>u fid s w1.
           js_prop req_body ''filecryptUrl'' = Inr (Str u) \<and> regex_exec u = Some fid \<and>
           getFileCryptSession e fid w = (Inr s, w1) \<and>
           map_get (activeSessions w1) fid = Some s \<and>
           st = 200 \<and> evaluate_result e = Inr ls \<and> sid = id_session s \<and>
           activeSessions w' = map_set fid (store_links ls s) (activeSessions w1) \<and>
           map_get (activeSessions w') fid = Some (store_links ls s) \<and>
           (\<forall>x. map_get (solvedLinks (store_links ls s)) x =
                  (case find (\<lambda>l. url l = x) (rev ls) of
                     Some l \<Rightarrow> Some l
                   | None \<Rightarrow> map_get (solvedLinks s) x))"
    by (intro exI [of _ u] exI [of _ fid] exI [of _ s] exI [of _ w1])
       (simp add: store_links_get)
qed


theorem successful_extraction_merges_witness:
  "captcha_wait_result no_captcha_env = Some (Rejected ''TimeoutError'') \<and>
   solve_filecrypt no_captcha_env example_world container_body =
     (Response 200
        (SolveSuccess
           [\<lparr>url = ''https://gofile.io/d/b2'', text_content = ''second''\<rparr>,
            \<lparr>url = ''https://gofile.io/d/c3'', text_content = ''part 3''\<rparr>]
           ''0b6e6d0e''),
      merged_world) \<and>
   evaluate_result no_captcha_env =
     Inr [\<lparr>url = ''https://gofile.io/d/b2'', text_content = ''second''\<rparr>,
          \<lparr>url = ''https://gofile.io/d/c3'', text_content = ''part 3''\<rparr>] \<and>
   (\<exists>s'. map_get (activeSessions merged_world) ''ABC123'' = Some s' \<and>
      map_get (solvedLinks s') ''https://gofile.io/d/a1'' =
        Some \<lparr>url = ''https://gofile.io/d/a1'', text_content = ''part 1''\<rparr> \<and>
      map_get (solvedLinks s') ''https://gofile.io/d/b2'' =
        Some \<lparr>url = ''https://gofile.io/d/b2'', text_content = ''second''\<rparr> \<and>
      map_get (solvedLinks s') ''https://gofile.io/d/c3'' =
        Some \<lparr>url = ''https://gofile.io/d/c3'', text_content = ''part 3''\<rparr>)"
proof -
  let ?ls = "[\<lparr>url = ''https://gofile.io/d/b2'', text_content = ''second''\<rparr>,
              \<lparr>url = ''https://gofile.io/d/c3'', text_content = ''part 3''\<rparr>]"
  have cap: "captcha_wait_result no_captcha_env = Some (Rejected ''TimeoutError'')"
    by (simp add: no_captcha_env_def)
  have live: "now_check no_captcha_env - createdAt example_session < expiredThreshold"
    by (simp add: no_captcha_env_def example_env_def example_session_def expiredThreshold_def)
  from getFileCryptSession_live [OF example_lookup live]
  have g: "getFileCryptSession no_captcha_env ''ABC123'' example_world =
             (Inr example_session, example_world)" .
  have b: "browser example_session = Some 7"
    by (simp add: example_session_def)
  have n: "newPage_result no_captcha_env = Inr 1"
    and t: "goto_result no_captcha_env = None"
    and l: "links_wait_result no_captcha_env = None"
    and ev: "evaluate_result no_captcha_env = Inr ?ls"
    and c: "close_result no_captcha_env = None"
    by (simp_all add: no_captcha_env_def example_env_def)
  note run = conjI [OF example_container_body conjI [OF container_url_parses conjI [OF g
      conjI [OF b conjI [OF n conjI [OF t conjI [OF l conjI [OF ev c]]]]]]]]
  note forward = successful_extraction_merges
      [of container_body no_captcha_env example_world, THEN conjunct1, rule_format, OF run]
  note backward = successful_extraction_merges
      [of container_body no_captcha_env example_world, THEN conjunct2, rule_format]
  have w: "example_world\<lparr>activeSessions :=
               map_set ''ABC123'' (store_links ?ls example_session)
                 (activeSessions example_world),
             calls := calls example_world @
               [NewPage 7, Goto 1 ''https://filecrypt.co/Container/ABC123'',
                WaitForSelector 1 CaptchaFrame, WaitForSelector 1 GofileAnchor,
                Evaluate 1, PageClose 1]\<rparr> = merged_world"
    by (simp add: example_world_def store_links_def merged_world_def)
       (simp add: example_session_def)
  have i: "id_session example_session = ''0b6e6d0e''"
    by (simp add: example_session_def)
  from forward [THEN conjunct1]
  have r: "solve_filecrypt no_captcha_env example_world container_body =
     (Response 200 (SolveSuccess ?ls ''0b6e6d0e''), merged_world)"
    unfolding w i .
  from backward [OF r] have e: "evaluate_result no_captcha_env = Inr ?ls"
    by blast
  from forward [THEN conjunct2, THEN conjunct2, THEN conjunct1]
  have m: "map_get (activeSessions merged_world) ''ABC123'' =
             Some (store_links ?ls example_session)"
    unfolding r by simp
  note look = forward [THEN conjunct2, THEN conjunct2, THEN conjunct2, rule_format]
  have a1: "map_get (solvedLinks (store_links ?ls example_session)) ''https://gofile.io/d/a1'' =
        Some \<lparr>url = ''https://gofile.io/d/a1'', text_content = ''part 1''\<rparr>"
    using look [of "''https://gofile.io/d/a1''"]
    by (simp add: map_get_def example_session_def)
  have a2: "map_get (solvedLinks (store_links ?ls example_session)) ''https://gofile.io/d/b2'' =
        Some \<lparr>url = ''https://gofile.io/d/b2'', text_content = ''second''\<rparr>"
    using look [of "''https://gofile.io/d/b2''"]
    by (simp add: map_get_def example_session_def)
  have a3: "map_get (solvedLinks (store_links ?ls example_session)) ''https://gofile.io/d/c3'' =
        Some \<lparr>url = ''https://gofile.io/d/c3'', text_content = ''part 3''\<rparr>"
    using look [of "''https://gofile.io/d/c3''"]
    by (simp add: map_get_def example_session_def)
  from cap r e m a1 a2 a3 show ?thesis by blast
qed

text \<open>
  C5: in a run that has obtained its session and opened and navigated its page, and
  whose wait for the result links is rejected, the page's close is issued and (the close
  resolving) the answer is status 200 with the timed-out error and the session id. The
  store is the one \<open>getFileCryptSession\<close> left, with the session and its links as they
  were; when the stored session was live at the start of the run, the store is the one
  before the run and \<^verbatim>\<open>get-solved-links\<close> answers every request as it did before.
\<close>

theorem timeout_keeps_links:
  assumes "js_prop req_body ''filecryptUrl'' = Inr (Str u)"
    and "regex_exec u = Some fid"
    and "getFileCryptSession e fid w = (Inr s, w1)"
    and "browser s = Some b"
    and "newPage_result e = Inr page"
    and "goto_result e = None"
    and "links_wait_result e = Some err"
    and "close_result_catch e = None"
    and "solve_filecrypt e w req_body = (r, w')"
  shows "r = Response 200 (SolveTimedOut (id_session s)) \<and>
         calls w' = calls w1 @ [NewPage b, Goto page u, WaitForSelector page CaptchaFrame,
                                WaitForSelector page GofileAnchor, PageClose page] \<and>
         activeSessions w' = activeSessions w1 \<and>
         map_get (activeSessions w') fid = Some s \<and>
         (\<forall>s0. map_get (activeSessions w) fid = Some s0 \<and>
                now_check e - createdAt s0 < expiredThreshold \<longrightarrow>
            s = s0 \<and> activeSessions w' = activeSessions w \<and>
            (\<forall>q. fst (get_solved_links w' q) = fst (get_solved_links w q)))"
proof -
  from solve_filecrypt_timeout [OF assms(1-7)] assms(8,9)
  have r: "r = Response 200 (SolveTimedOut (id_session s))"
    and w': "w' = w1\<lparr>calls := calls w1 @ [NewPage b, Goto page u,
                   WaitForSelector page CaptchaFrame, WaitForSelector page GofileAnchor,
                   PageClose page]\<rparr>"
    by simp_all
  from w' have st: "activeSessions w' = activeSessions w1" by simp
  have stored: "map_get (activeSessions w') fid = Some s"
    using getFileCryptSession_stored [OF assms(3)] st by simp
  have live: "s = s0 \<and> activeSessions w' = activeSessions w \<and>
            (\<forall>q. fst (get_solved_links w' q) = fst (get_solved_links w q))"
    if "map_get (activeSessions w) fid = Some s0 \<and>
        now_check e - createdAt s0 < expiredThreshold" for s0
  proof -
    from that assms(3) have "s = s0" "w1 = w"
      by (simp_all add: getFileCryptSession_live)
    with st have a: "activeSessions w' = activeSessions w" by simp
    from get_solved_links_store_only [OF a]
    have "\<forall>q. fst (get_solved_links w' q) = fst (get_solved_links w q)" by blast
    with \<open>s = s0\<close> a show ?thesis by blast
  qed
  from w' have c: "calls w' = calls w1 @ [NewPage b, Goto page u,
      WaitForSelector page CaptchaFrame, WaitForSelector page GofileAnchor, PageClose page]"
    by simp
  from r c st stored live show ?thesis by blast
qed

theorem timeout_keeps_links_witness:
  "fst (solve_filecrypt timeout_env example_world container_body) =
     Response 200 (SolveTimedOut ''0b6e6d0e'') \<and>
   activeSessions (snd (solve_filecrypt timeout_env example_world container_body)) =
     activeSessions example_world \<and>
   fst (get_solved_links (snd (solve_filecrypt timeout_env example_world container_body))
          (Obj [(''filecryptUrl'', Str example_url)])) =
     Response 200 (LinksSuccess example_links ''0b6e6d0e'')"
proof -
  have live: "now_check timeout_env - createdAt example_session < expiredThreshold"
    by (simp add: timeout_env_def example_env_def example_session_def expiredThreshold_def)
  from getFileCryptSession_live [OF example_lookup live]
  have g: "getFileCryptSession timeout_env ''ABC123'' example_world =
             (Inr example_session, example_world)" .
  have b: "browser example_session = Some 7"
    by (simp add: example_session_def)
  have n: "newPage_result timeout_env = Inr 1"
    and t: "goto_result timeout_env = None"
    and l: "links_wait_result timeout_env = Some (Rejected ''TimeoutError'')"
    and c: "close_result_catch timeout_env = None"
    by (simp_all add: timeout_env_def example_env_def)
  have r: "solve_filecrypt timeout_env example_world container_body =
      (fst (solve_filecrypt timeout_env example_world container_body),
       snd (solve_filecrypt timeout_env example_world container_body))"
    by simp
  have i: "id_session example_session = ''0b6e6d0e''"
    by (simp add: example_session_def)
  have q: "fst (get_solved_links example_world (Obj [(''filecryptUrl'', Str example_url)])) =
     Response 200 (LinksSuccess example_links ''0b6e6d0e'')"
    using example_accessor_answer by simp
  from timeout_keeps_links [OF example_container_body container_url_parses g b n t l c r]
    example_lookup live i q
  show ?thesis by simp
qed

text \<open>
  C4: for a non-empty alphanumeric \<open>X\<close>, two URLs that differ only in
  \<^verbatim>\<open>filecrypt.co/Container/\<close> against \<^verbatim>\<open>filecrypt.co/Link/\<close> before \<open>X\<close> parse, and to the
  same siteId. When a request with one of them has obtained a session \<open>s\<close>, the store
  afterwards holds under that siteId a session with the id and creation time of \<open>s\<close>; as
  long as it is less than 30 minutes old at the check of a following request with the
  other URL, \<open>getFileCryptSession\<close> returns that stored session without touching the
  state, and a session id in either response is the id of \<open>s\<close>.
\<close>

theorem path_style_same_session:
  assumes "(url1 = P @ ''filecrypt.co/Container/'' @ X @ S \<and>
            url2 = P @ ''filecrypt.co/Link/'' @ X @ S) \<or>
           (url1 = P @ ''filecrypt.co/Link/'' @ X @ S \<and>
            url2 = P @ ''filecrypt.co/Container/'' @ X @ S)"
    and "X \<noteq> []" and "list_all class_matches X"
  shows "\<exists>fid. regex_exec url1 = Some fid \<and> regex_exec url2 = Some fid \<and>
           (\<forall>e1 e2 w w0 w1 r1 s body1 body2.
              js_prop body1 ''filecryptUrl'' = Inr (Str url1) \<and>
              js_prop body2 ''filecryptUrl'' = Inr (Str url2) \<and>
              getFileCryptSession e1 fid w = (Inr s, w0) \<and>
              solve_filecrypt e1 w body1 = (r1, w1) \<longrightarrow>
              (\<forall>i. response_sessionId r1 = Some i \<longrightarrow> i = id_session s) \<and>
              (\<exists>s1. map_get (activeSessions w1) fid = Some s1 \<and>
                    id_session s1 = id_session s \<and> createdAt s1 = createdAt s \<and>
                    (now_check e2 - createdAt s1 < expiredThreshold \<longrightarrow>
                       getFileCryptSession e2 fid w1 = (Inr s1, w1) \<and>
                       (\<forall>i. response_sessionId (fst (solve_filecrypt e2 w1 body2)) = Some i \<longrightarrow>
                            i = id_session s))))"
proof -
  have same: "regex_exec url1 = regex_exec url2"
    using assms(1) path_style_same_siteId [of P "X @ S"] by auto
  have "matches_pattern (P @ ''filecrypt.co/Container/'' @ X @ S)"
    by (rule matches_patternI [OF _ assms(2,3)]) (simp add: same_ignoring_case_def)
  moreover have "matches_pattern (P @ ''filecrypt.co/Link/'' @ X @ S)"
    by (rule matches_patternI [OF _ assms(2,3)]) (simp add: same_ignoring_case_def)
  ultimately have "matches_pattern (P @ ''filecrypt.co/Container/'' @ X @ S) \<and>
      matches_pattern (P @ ''filecrypt.co/Link/'' @ X @ S)" by (rule conjI)
  with assms(1) have "matches_pattern url1" by blast
  then obtain fid where fid: "regex_exec url1 = Some fid"
    using regex_exec_matches_pattern [of url1] by blast
  with same have fid2: "regex_exec url2 = Some fid" by simp
  have runs: "(\<forall>i. response_sessionId r1 = Some i \<longrightarrow> i = id_session s) \<and>
              (\<exists>s1. map_get (activeSessions w1) fid = Some s1 \<and>
                    id_session s1 = id_session s \<and> createdAt s1 = createdAt s \<and>
                    (now_check e2 - createdAt s1 < expiredThreshold \<longrightarrow>
                       getFileCryptSession e2 fid w1 = (Inr s1, w1) \<and>
                       (\<forall>i. response_sessionId (fst (solve_filecrypt e2 w1 body2)) = Some i \<longrightarrow>
                            i = id_session s)))"
    if h: "js_prop body1 ''filecryptUrl'' = Inr (Str url1) \<and>
              js_prop body2 ''filecryptUrl'' = Inr (Str url2) \<and>
              getFileCryptSession e1 fid w = (Inr s, w0) \<and>
              solve_filecrypt e1 w body1 = (r1, w1)"
    for e1 e2 :: env and w w0 w1 r1 s body1 body2
  proof -
    from h have b1: "js_prop body1 ''filecryptUrl'' = Inr (Str url1)"
      and b2: "js_prop body2 ''filecryptUrl'' = Inr (Str url2)"
      and g: "getFileCryptSession e1 fid w = (Inr s, w0)"
      and r: "solve_filecrypt e1 w body1 = (r1, w1)"
      by simp_all
    from solve_filecrypt_keeps_session [OF b1 fid g r]
    obtain s1 where s1: "map_get (activeSessions w1) fid = Some s1"
        "id_session s1 = id_session s" "createdAt s1 = createdAt s"
      and i1: "\<forall>i. response_sessionId r1 = Some i \<longrightarrow> i = id_session s"
      by blast
    have second: "getFileCryptSession e2 fid w1 = (Inr s1, w1) \<and>
        (\<forall>i. response_sessionId (fst (solve_filecrypt e2 w1 body2)) = Some i \<longrightarrow>
             i = id_session s)"
      if live: "now_check e2 - createdAt s1 < expiredThreshold"
    proof -
      from getFileCryptSession_live [OF s1(1) live]
      have g2: "getFileCryptSession e2 fid w1 = (Inr s1, w1)" .
      obtain r2 w2 where r2: "solve_filecrypt e2 w1 body2 = (r2, w2)"
        by (cases "solve_filecrypt e2 w1 body2")
      from solve_filecrypt_keeps_session [OF b2 fid2 g2 r2] s1(2)
      have "\<forall>i. response_sessionId r2 = Some i \<longrightarrow> i = id_session s" by simp
      with g2 r2 show ?thesis by simp
    qed
    from i1 s1 second show ?thesis by blast
  qed
  from fid fid2 runs show ?thesis by blast
qed

theorem path_style_same_session_witness:
  "regex_exec ''https://filecrypt.co/Container/ABC123'' = Some ''ABC123'' \<and>
   regex_exec ''https://filecrypt.co/Link/ABC123'' = Some ''ABC123'' \<and>
   solve_filecrypt example_env empty_world container_body =
     (Response 200
        (SolveSuccess
           [\<lparr>url = ''https://gofile.io/d/b2'', text_content = ''second''\<rparr>,
            \<lparr>url = ''https://gofile.io/d/c3'', text_content = ''part 3''\<rparr>]
           ''5c1d2a9f''),
      after_first) \<and>
   getFileCryptSession second_env ''ABC123'' after_first = (Inr first_session, after_first) \<and>
   id_session first_session = ''5c1d2a9f'' \<and>
   response_sessionId (fst (solve_filecrypt second_env after_first link_body)) =
     Some ''5c1d2a9f''"
proof -
  let ?u1 = "''https://filecrypt.co/Container/ABC123''"
  let ?u2 = "''https://filecrypt.co/Link/ABC123''"
  have urls: "(?u1 = ''https://'' @ ''filecrypt.co/Container/'' @ ''ABC123'' @ [] \<and>
               ?u2 = ''https://'' @ ''filecrypt.co/Link/'' @ ''ABC123'' @ []) \<or>
              (?u1 = ''https://'' @ ''filecrypt.co/Link/'' @ ''ABC123'' @ [] \<and>
               ?u2 = ''https://'' @ ''filecrypt.co/Container/'' @ ''ABC123'' @ [])"
    by simp
  have x: "''ABC123'' \<noteq> []" and cl: "list_all class_matches ''ABC123''"
    by (simp_all add: class_matches_def Canonicalize_def)
  from path_style_same_session [OF urls x cl]
  obtain fid where h: "regex_exec ?u1 = Some fid \<and> regex_exec ?u2 = Some fid \<and>
           (\<forall>e1 e2 w w0 w1 r1 s body1 body2.
              js_prop body1 ''filecryptUrl'' = Inr (Str ?u1) \<and>
              js_prop body2 ''filecryptUrl'' = Inr (Str ?u2) \<and>
              getFileCryptSession e1 fid w = (Inr s, w0) \<and>
              solve_filecrypt e1 w body1 = (r1, w1) \<longrightarrow>
              (\<forall>i. response_sessionId r1 = Some i \<longrightarrow> i = id_session s) \<and>
              (\<exists>s1. map_get (activeSessions w1) fid = Some s1 \<and>
                    id_session s1 = id_session s \<and> createdAt s1 = createdAt s \<and>
                    (now_check e2 - createdAt s1 < expiredThreshold \<longrightarrow>
                       getFileCryptSession e2 fid w1 = (Inr s1, w1) \<and>
                       (\<forall>i. response_sessionId (fst (solve_filecrypt e2 w1 body2)) = Some i \<longrightarrow>
                            i = id_session s))))" ..
  from h have f1: "regex_exec ?u1 = Some fid" and f2: "regex_exec ?u2 = Some fid"
    by (rule conjunct1, rule conjunct2 [THEN conjunct1])
  note runs = h [THEN conjunct2, THEN conjunct2, rule_format]
  from f1 container_url_parses have fid: "fid = ''ABC123''" by simp
  from solve_filecrypt_first_request
  have g: "getFileCryptSession example_env fid empty_world =
     (Inr (fresh_session example_env ''ABC123'' 8),
      \<lparr>activeSessions = [(''ABC123'', fresh_session example_env ''ABC123'' 8)],
       calls = [Launch]\<rparr>)"
    and r: "solve_filecrypt example_env empty_world container_body =
     (Response 200
        (SolveSuccess
           [\<lparr>url = ''https://gofile.io/d/b2'', text_content = ''second''\<rparr>,
            \<lparr>url = ''https://gofile.io/d/c3'', text_content = ''part 3''\<rparr>]
           ''5c1d2a9f''),
      after_first)"
    unfolding fid by simp_all
  from runs [where ?e2.0 = second_env,
      OF conjI [OF example_container_body conjI [OF example_link_body conjI [OF g r]]],
      THEN conjunct2]
  obtain s1 where s1: "map_get (activeSessions after_first) ''ABC123'' = Some s1"
    and reuse: "now_check second_env - createdAt s1 < expiredThreshold \<longrightarrow>
                  getFileCryptSession second_env ''ABC123'' after_first = (Inr s1, after_first)"
    unfolding fid by blast
  have "map_get (activeSessions after_first) ''ABC123'' = Some first_session"
    by (simp add: map_get_def after_first_def)
  with s1 have e: "s1 = first_session" by simp
  have live: "now_check second_env - createdAt first_session < expiredThreshold"
    by (simp add: second_env_def example_env_def first_session_def expiredThreshold_def)
  with reuse e have g2: "getFileCryptSession second_env ''ABC123'' after_first =
      (Inr first_session, after_first)"
    by simp
  have i: "id_session first_session = ''5c1d2a9f''"
    by (simp add: first_session_def)
  have l: "regex_exec ?u2 = Some ''ABC123''"
    using f2 fid by simp
  have "response_sessionId
          (fst (open_page second_env ?u2 ''ABC123'' first_session after_first)) =
        Some ''5c1d2a9f''"
    by (simp add: open_page_def extract_links_def Let_def second_env_def example_env_def
        first_session_def)
  then have rs: "response_sessionId (fst (solve_filecrypt second_env after_first link_body)) =
     Some ''5c1d2a9f''"
    unfolding solve_filecrypt_session [OF example_link_body l g2] .
  from container_url_parses l r g2 i rs show ?thesis by blast
qed

section \<open>The invariant of the store\<close>

text \<open>
  The hypotheses on the state used above (unique keys, a browser in the session) hold in
  every state that the three handlers can reach from the empty store.
\<close>

lemma set_map_set: "set (map_set k v m) \<subseteq> insert (k, v) (set m)"
  by (induction m) auto

lemma set_map_delete: "set (map_delete k m) \<subseteq> set m"
  by (auto simp: map_delete_def)

lemma store_ok_empty: "store_ok \<lparr>activeSessions = [], calls = cs\<rparr>"
  by (simp add: store_ok_def map_ok_def)

lemma store_ok_calls: "store_ok (w\<lparr>calls := cs\<rparr>) = store_ok w"
  by (simp add: store_ok_def)

lemma store_ok_set:
  assumes "store_ok w" and "filecryptId s = fid" and "browser s \<noteq> None"
  shows "store_ok (w\<lparr>activeSessions := map_set fid s (activeSessions w)\<rparr>)"
  using assms set_map_set [of fid s "activeSessions w"]
  by (auto simp: store_ok_def map_ok_set)

lemma store_ok_delete:
  assumes "store_ok w"
  shows "store_ok (w\<lparr>activeSessions := map_delete fid (activeSessions w)\<rparr>)"
  using assms set_map_delete [of fid "activeSessions w"]
  by (auto simp: store_ok_def map_ok_delete)

lemma store_ok_lookup:
  assumes "store_ok w" and "map_get (activeSessions w) fid = Some s"
  shows "filecryptId s = fid \<and> browser s \<noteq> None"
proof -
  from assms(2) have "(fid, s) \<in> set (activeSessions w)"
    by (simp add: map_get_def map_of_SomeD)
  with assms(1) show ?thesis by (auto simp: store_ok_def)
qed

lemma store_ok_create_session:
  assumes "store_ok w"
  shows "store_ok (snd (create_session e fid w))"
proof (cases "launch_result e")
  case (Inl err)
  with assms show ?thesis by (simp add: create_session_fails store_ok_calls)
next
  case (Inr b)
  have "store_ok (w\<lparr>activeSessions := map_set fid (fresh_session e fid b) (activeSessions w)\<rparr>)"
    by (rule store_ok_set [OF assms]) (simp_all add: fresh_session_def)
  then show ?thesis
    by (simp add: create_session_ok [OF Inr] store_ok_def)
qed

lemma store_ok_getFileCryptSession:
  assumes "store_ok w"
  shows "store_ok (snd (getFileCryptSession e fid w))"
proof (cases "map_get (activeSessions w) fid")
  case None
  with assms show ?thesis
    by (simp add: getFileCryptSession_absent store_ok_create_session)
next
  case (Some old)
  show ?thesis
  proof (cases "now_check e - createdAt old < expiredThreshold")
    case True
    with Some assms show ?thesis by (simp add: getFileCryptSession_live)
  next
    case False
    have "store_ok (w\<lparr>calls := calls w @ close_browser old,
        activeSessions := map_delete fid (activeSessions w)\<rparr>)"
      using store_ok_delete [OF assms, of fid] by (simp add: store_ok_def)
    then show ?thesis
      using Some False by (simp add: getFileCryptSession_stale store_ok_create_session)
  qed
qed

lemma getFileCryptSession_has_browser:
  assumes "store_ok w" and "getFileCryptSession e fid w = (Inr s, w')"
  shows "\<exists>b. browser s = Some b"
proof -
  from store_ok_getFileCryptSession [OF assms(1), of e fid] assms(2)
  have "store_ok w'" by simp
  from store_ok_lookup [OF this getFileCryptSession_stored [OF assms(2)]]
  show ?thesis by auto
qed

lemma store_ok_open_page:
  assumes "store_ok w" and "map_get (activeSessions w) fid = Some s"
  shows "store_ok (snd (open_page e u fid s w))"
proof -
  from store_ok_lookup [OF assms] have s: "filecryptId s = fid" "browser s \<noteq> None"
    by simp_all
  from open_page_effect [of e u fid s w]
  consider "activeSessions (snd (open_page e u fid s w)) = activeSessions w"
    | ls where "activeSessions (snd (open_page e u fid s w)) =
                  map_set fid (store_links ls s) (activeSessions w)"
    by blast
  then show ?thesis
  proof cases
    case 1
    with assms(1) show ?thesis by (simp add: store_ok_def)
  next
    case (2 ls)
    have "store_ok (w\<lparr>activeSessions := map_set fid (store_links ls s) (activeSessions w)\<rparr>)"
      by (rule store_ok_set [OF assms(1)]) (simp_all add: store_links_fields s)
    with 2 show ?thesis by (simp add: store_ok_def)
  qed
qed

lemma store_ok_solve_filecrypt:
  assumes "store_ok w"
  shows "store_ok (snd (solve_filecrypt e w req_body))"
proof (cases "js_prop req_body ''filecryptUrl''")
  case (Inl err)
  with assms show ?thesis by (simp add: solve_filecrypt_def)
next
  case (Inr v)
  show ?thesis
  proof (cases "js_match v")
    case (Inl err)
    with Inr assms show ?thesis by (simp add: solve_filecrypt_def)
  next
    case m: (Inr r)
    then obtain u where u: "v = Str u" "r = regex_exec u"
      using js_match_Inr by blast
    show ?thesis
    proof (cases "regex_exec u")
      case None
      with Inr u assms show ?thesis by (simp add: solve_filecrypt_def)
    next
      case (Some fid)
      obtain res w1 where g: "getFileCryptSession e fid w = (res, w1)"
        by (cases "getFileCryptSession e fid w")
      from store_ok_getFileCryptSession [OF assms, of e fid] g have ok1: "store_ok w1"
        by simp
      show ?thesis
      proof (cases res)
        case (Inl err)
        with Inr u Some g ok1 show ?thesis by (simp add: solve_filecrypt_def)
      next
        case s: (Inr s)
        with g have g': "getFileCryptSession e fid w = (Inr s, w1)" by simp
        from Inr u have p: "js_prop req_body ''filecryptUrl'' = Inr (Str u)" by simp
        from store_ok_open_page [OF ok1 getFileCryptSession_stored [OF g']]
        show ?thesis
          by (simp add: solve_filecrypt_session [OF p Some g'])
      qed
    qed
  qed
qed

lemma get_solved_links_state: "snd (get_solved_links w req_body) = w"
  by (simp add: get_solved_links_def split: sum.splits option.splits)

lemma store_ok_cleanup_sessions:
  assumes "store_ok w"
  shows "store_ok (snd (cleanup_sessions now w))"
proof -
  from assms have "map_ok (activeSessions w)" by (simp add: store_ok_def)
  from cleanup_sessions_eq [OF this, of now] assms show ?thesis
    by (auto simp: swept_def store_ok_def map_ok_def distinct_map_filter)
qed

end
